theory Spec2Isabelle
  imports Main
begin

section \<open>Python values\<close>

text \<open>
  Exceptions of the Python program are values of \<open>error\<close>; a computation that may raise
  returns \<open>error + 'a\<close>, with \<open>Inl\<close> for the exception.
\<close>

datatype error = UnboundLocalError | AttributeError | KeyError | IndexError | ValueError | TypeError

text \<open>
  A Python \<open>dict\<close> keeps its keys in insertion order, and storing under a key that is
  already present keeps the key's position: an association list with update in place.
\<close>

fun dict_set :: "('k \<times> 'v) list \<Rightarrow> 'k \<Rightarrow> 'v \<Rightarrow> ('k \<times> 'v) list" where
  "dict_set [] k v = [(k, v)]"
| "dict_set ((k', v') # d) k v = (if k' = k then (k', v) # d else (k', v') # dict_set d k v)"

fun dict_get :: "('k \<times> 'v) list \<Rightarrow> 'k \<Rightarrow> error + 'v" where
  "dict_get [] k = Inl KeyError"
| "dict_get ((k', v') # d) k = (if k' = k then Inr v' else dict_get d k)"

definition dict_keys :: "('k \<times> 'v) list \<Rightarrow> 'k list" where
  "dict_keys d = map fst d"

text \<open>\<open>slice(start, stop)\<close> with no step.\<close>

type_synonym slice = "nat \<times> nat"

text \<open>\<open>itertools.combinations(xs, 2)\<close>: the pairs of positions \<open>i < j\<close> in lexicographic order.\<close>

fun combinations2 :: "'a list \<Rightarrow> ('a \<times> 'a) list" where
  "combinations2 [] = []"
| "combinations2 (x # xs) = map (Pair x) xs @ combinations2 xs"

section \<open>Feature matrices\<close>

text \<open>
  A feature matrix is a NumPy array (\<open>Dense\<close>) or a SciPy sparse array in one of its
  storage formats. The model keeps the row count, the columns in order (each a list of the
  entries of that column), the representation and the dtype.
\<close>

datatype fmt = Dense | CSC | CSR | COO

datatype dtype = Float64 | Float32 | Int64 | Int32

record 'a matrix =
  nrows :: nat
  mcols :: "'a list list"
  fmt :: fmt
  dtype :: dtype

definition ncols :: "'a matrix \<Rightarrow> nat" where
  "ncols m = length (mcols m)"

definition issparse :: "'a matrix \<Rightarrow> bool" where
  "issparse m = (fmt m \<noteq> Dense)"

definition csc_array :: "'a matrix \<Rightarrow> 'a matrix" where
  "csc_array m = m\<lparr>fmt := CSC\<rparr>"

definition tocsc :: "'a matrix \<Rightarrow> 'a matrix" where
  "tocsc m = m\<lparr>fmt := CSC\<rparr>"

text \<open>
  \<open>m[:, slice(a, b)]\<close>: the columns \<open>a \<le> j < b\<close> that exist; a slice never raises, it is
  clipped to the columns of \<open>m\<close>.
\<close>

definition slice_cols :: "'a matrix \<Rightarrow> slice \<Rightarrow> 'a matrix" where
  "slice_cols m sl = m\<lparr>mcols := take (snd sl - fst sl) (drop (fst sl) (mcols m))\<rparr>"

text \<open>\<open>m[:, [x]]\<close>: the single column \<open>x\<close>, an \<open>n \<times> 1\<close> block; out of range is an IndexError.\<close>

definition col_at :: "'a matrix \<Rightarrow> nat \<Rightarrow> error + 'a list" where
  "col_at m x = (if x < length (mcols m) then Inr (mcols m ! x) else Inl IndexError)"

text \<open>
  \<open>X1 * c\<close> for an \<open>n \<times> 1\<close> block \<open>c\<close>: broadcasting multiplies every column of \<open>X1\<close>
  entry by entry with \<open>c\<close>.
\<close>

definition mul_col :: "('a::times) matrix \<Rightarrow> 'a list \<Rightarrow> 'a matrix" where
  "mul_col X1 c = X1\<lparr>mcols := map (\<lambda>a. map2 (*) a c) (mcols X1)\<rparr>"

text \<open>
  \<open>numpy.hstack(blocks, dtype=d)\<close> and \<open>scipy.sparse.hstack(blocks, dtype=d)\<close>: the
  columns of the blocks side by side. Both raise on an empty list of blocks and on blocks
  whose row counts differ.
\<close>

definition hstack_as :: "fmt \<Rightarrow> 'a matrix list \<Rightarrow> dtype \<Rightarrow> error + 'a matrix" where
  "hstack_as f blocks d =
     (case blocks of
        [] \<Rightarrow> Inl ValueError
      | b # bs \<Rightarrow>
          if list_all (\<lambda>b'. nrows b' = nrows b) bs
          then Inr \<lparr>nrows = nrows b, mcols = concat (map mcols blocks), fmt = f, dtype = d\<rparr>
          else Inl ValueError)"

definition np_hstack :: "'a matrix list \<Rightarrow> dtype \<Rightarrow> error + 'a matrix" where
  "np_hstack blocks d = hstack_as Dense blocks d"

definition sp_hstack :: "'a matrix list \<Rightarrow> dtype \<Rightarrow> error + 'a matrix" where
  "sp_hstack blocks d = hstack_as COO blocks d"

section \<open>CrossPolyPipeline\<close>

text \<open>
  The fitted attributes of a \<open>CrossPolyPipeline\<close>: \<open>split_marks_\<close> and \<open>shape_out_\<close>
  (written without the trailing underscore).
\<close>

record fitted_cross =
  split_marks :: "(string \<times> slice) list"
  shape_out :: nat

text \<open>
  \<open>CrossPolyPipeline.fit\<close>. The transformers belong to scikit-learn; the loop only asks each
  one for \<open>tfm.transform(rows).shape[1]\<close>, which is the parameter \<open>tw tfm rows\<close>. The input
  \<open>X\<close> is a list of rows and \<open>X[:2]\<close> is \<open>take 2 X\<close>.
\<close>

fun fit_loop :: "('t \<Rightarrow> 'r list \<Rightarrow> nat) \<Rightarrow> 'r list \<Rightarrow> (string \<times> 't) list \<Rightarrow>
    (string \<times> slice) list \<Rightarrow> nat \<Rightarrow> (string \<times> slice) list \<times> nat" where
  "fit_loop tw X [] marks start = (marks, start)"
| "fit_loop tw X ((name, tfm) # rest) marks start =
     (let width = tw tfm (take 2 X)
      in fit_loop tw X rest (dict_set marks name (start, start + width)) (width + start))"

definition CrossPoly_fit :: "('t \<Rightarrow> 'r list \<Rightarrow> nat) \<Rightarrow> 'r list \<Rightarrow> (string \<times> 't) list \<Rightarrow> fitted_cross" where
  "CrossPoly_fit tw X transformer_list =
     (case fit_loop tw X transformer_list [] 0 of
        (marks, start) \<Rightarrow> \<lparr>split_marks = marks, shape_out = start\<rparr>)"

text \<open>
  \<open>CrossPolyPipeline.transform\<close>. The first loop runs over the pairs of names and only
  rebinds \<open>X1\<close> and \<open>X2\<close>; the second loop, over the columns of \<open>X2\<close>, comes after it.
  The argument \<open>X_tfm0\<close> is what \<open>self.union_estimator.transform(X)\<close> returned.
\<close>

fun pair_loop :: "(string \<times> slice) list \<Rightarrow> 'a matrix \<Rightarrow> (string \<times> string) list \<Rightarrow>
    ('a matrix \<times> 'a matrix) option \<Rightarrow> error + ('a matrix \<times> 'a matrix) option" where
  "pair_loop marks X_tfm [] bound = Inr bound"
| "pair_loop marks X_tfm ((name1, name2) # rest) bound =
     (case dict_get marks name1 of
        Inl e \<Rightarrow> Inl e
      | Inr s1 \<Rightarrow>
          (case dict_get marks name2 of
             Inl e \<Rightarrow> Inl e
           | Inr s2 \<Rightarrow> pair_loop marks X_tfm rest (Some (slice_cols X_tfm s1, slice_cols X_tfm s2))))"

fun column_loop :: "('a::times) matrix \<Rightarrow> 'a matrix \<Rightarrow> nat list \<Rightarrow> 'a matrix list \<Rightarrow>
    error + 'a matrix list" where
  "column_loop X1 X2 [] columns = Inr columns"
| "column_loop X1 X2 (x # xs) columns =
     (case col_at X2 x of
        Inl e \<Rightarrow> Inl e
      | Inr c \<Rightarrow> column_loop X1 X2 xs (columns @ [mul_col X1 c]))"

definition CrossPoly_transform :: "fitted_cross \<Rightarrow> ('a::times) matrix \<Rightarrow> error + 'a matrix" where
  "CrossPoly_transform self X_tfm0 =
     (let X_tfm = (if issparse X_tfm0 then csc_array X_tfm0 else X_tfm0)
      in case pair_loop (split_marks self) X_tfm
                (combinations2 (dict_keys (split_marks self))) None of
           Inl e \<Rightarrow> Inl e
         | Inr None \<Rightarrow> Inl UnboundLocalError
         | Inr (Some (X1, X2)) \<Rightarrow>
             (case column_loop X1 X2 [0..<ncols X2] [] of
                Inl e \<Rightarrow> Inl e
              | Inr columns \<Rightarrow>
                  if issparse X_tfm
                  then (case sp_hstack columns (dtype X_tfm) of
                          Inl e \<Rightarrow> Inl e
                        | Inr m \<Rightarrow> Inr (tocsc m))
                  else np_hstack columns (dtype X_tfm)))"

section \<open>Estimator objects\<close>

text \<open>
  A Python object has an identity, and composing pipelines shares or copies objects. The
  structure of an estimator (its class and constructor parameters) is set when it is
  constructed and not changed afterwards; fitting changes attributes of the object. So an
  estimator is a tree whose nodes carry their object identity \<open>oid\<close>, and the state holds
  the next unused identity and the set of objects that \<open>fit\<close> has been called on. The same
  \<open>oid\<close> in two trees is the same object, referenced from both.

  \<open>Leaf\<close> is an estimator of scikit-learn or skrub (class name, constructor parameters);
  \<open>Pipeline\<close> and \<open>FeatureUnion\<close> are scikit-learn's, with their list of named steps or
  transformers; \<open>CrossPolyPipeline\<close> holds its \<open>union_estimator\<close> and \<open>PlaytimePipeline\<close>
  its \<open>pipeline\<close>.
\<close>

type_synonym oid = nat

datatype est =
    Leaf oid string "string list"
  | Pipeline oid "(string \<times> est) list"
  | FeatureUnion oid "(string \<times> est) list"
  | CrossPolyPipeline oid est
  | PlaytimePipeline oid est

text \<open>A value that is an estimator object or a plain Python list of them.\<close>

datatype pyval = Obj est | PyList "est list"

record pystate =
  next_oid :: oid
  fitted :: "oid set"

definition bump :: "pystate \<Rightarrow> pystate" where
  "bump s = s\<lparr>next_oid := Suc (next_oid s)\<rparr>"

definition mark :: "oid \<Rightarrow> pystate \<Rightarrow> pystate" where
  "mark i s = s\<lparr>fitted := insert i (fitted s)\<rparr>"

text \<open>\<open>type(e).__name__\<close>, and \<open>str.lower\<close> on ASCII letters.\<close>

fun class_name :: "est \<Rightarrow> string" where
  "class_name (Leaf i c p) = c"
| "class_name (Pipeline i steps) = ''Pipeline''"
| "class_name (FeatureUnion i transformer_list) = ''FeatureUnion''"
| "class_name (CrossPolyPipeline i union_estimator) = ''CrossPolyPipeline''"
| "class_name (PlaytimePipeline i pipeline) = ''PlaytimePipeline''"

definition lower_char :: "char \<Rightarrow> char" where
  "lower_char c =
     (if (65::nat) \<le> of_char c \<and> of_char c \<le> (90::nat) then char_of (of_char c + (32::nat)) else c)"

definition lower :: "string \<Rightarrow> string" where
  "lower s = map lower_char s"

text \<open>\<open>"%d" % n\<close>: the decimal digits of \<open>n\<close>.\<close>

fun str_nat :: "nat \<Rightarrow> string" where
  "str_nat n =
     (if n < 10 then [char_of (48 + n)] else str_nat (n div 10) @ [char_of (48 + n mod 10)])"

declare str_nat.simps [simp del]

text \<open>
  scikit-learn's \<open>_name_estimators\<close>, used by \<open>make_union\<close> and \<open>make_pipeline\<close>: every
  estimator is named by its lower-cased class name; a name that occurs more than once gets
  the suffix \<open>-k\<close> at its \<open>k\<close>-th occurrence.
\<close>

definition unique_names :: "string list \<Rightarrow> string list" where
  "unique_names names =
     map (\<lambda>i. let name = names ! i
              in if 1 < count_list names name
                 then name @ ''-'' @ str_nat (count_list (take (Suc i) names) name)
                 else name)
       [0..<length names]"

definition name_estimators :: "est list \<Rightarrow> (string \<times> est) list" where
  "name_estimators estimators =
     zip (unique_names (map (\<lambda>e. lower (class_name e)) estimators)) estimators"

definition make_union :: "est list \<Rightarrow> pystate \<Rightarrow> est \<times> pystate" where
  "make_union transformers s = (FeatureUnion (next_oid s) (name_estimators transformers), bump s)"

definition make_pipeline :: "est list \<Rightarrow> pystate \<Rightarrow> est \<times> pystate" where
  "make_pipeline steps s = (Pipeline (next_oid s) (name_estimators steps), bump s)"

text \<open>
  \<open>sklearn.base.clone\<close>: a new unfitted estimator of the same class with the same
  parameters, parameters that are estimators (or lists of named estimators) being cloned in
  turn. Every object of the copy is new.
\<close>

fun clone :: "est \<Rightarrow> pystate \<Rightarrow> est \<times> pystate"
  and clone_steps :: "(string \<times> est) list \<Rightarrow> pystate \<Rightarrow> (string \<times> est) list \<times> pystate" where
  "clone (Leaf i c p) s = (Leaf (next_oid s) c p, bump s)"
| "clone (Pipeline i steps) s =
     (case clone_steps steps s of (steps', s1) \<Rightarrow> (Pipeline (next_oid s1) steps', bump s1))"
| "clone (FeatureUnion i transformer_list) s =
     (case clone_steps transformer_list s of
        (transformer_list', s1) \<Rightarrow> (FeatureUnion (next_oid s1) transformer_list', bump s1))"
| "clone (CrossPolyPipeline i union_estimator) s =
     (case clone union_estimator s of
        (union_estimator', s1) \<Rightarrow> (CrossPolyPipeline (next_oid s1) union_estimator', bump s1))"
| "clone (PlaytimePipeline i pipeline) s =
     (case clone pipeline s of (pipeline', s1) \<Rightarrow> (PlaytimePipeline (next_oid s1) pipeline', bump s1))"
| "clone_steps [] s = ([], s)"
| "clone_steps ((name, e) # rest) s =
     (case clone e s of
        (e', s1) \<Rightarrow> (case clone_steps rest s1 of (rest', s2) \<Rightarrow> ((name, e') # rest', s2)))"

text \<open>
  The objects that a call of \<open>fit\<close> reaches. \<open>PlaytimePipeline.fit\<close> calls
  \<open>self.pipeline.fit\<close> and \<open>CrossPolyPipeline.fit\<close> calls \<open>self.union_estimator.fit\<close>
  (recording the split marks that \<open>CrossPoly_fit\<close> computes); scikit-learn's \<open>Pipeline\<close>
  (without a memory) and \<open>FeatureUnion\<close> fit their steps and transformers in place, in order.
\<close>

fun fit :: "est \<Rightarrow> pystate \<Rightarrow> pystate"
  and fit_steps :: "(string \<times> est) list \<Rightarrow> pystate \<Rightarrow> pystate" where
  "fit (Leaf i c p) s = mark i s"
| "fit (Pipeline i steps) s = mark i (fit_steps steps s)"
| "fit (FeatureUnion i transformer_list) s = mark i (fit_steps transformer_list s)"
| "fit (CrossPolyPipeline i union_estimator) s = mark i (fit union_estimator s)"
| "fit (PlaytimePipeline i pipeline) s = mark i (fit pipeline s)"
| "fit_steps [] s = s"
| "fit_steps ((name, e) # rest) s = fit_steps rest (fit e s)"

text \<open>The objects of an estimator, and its structure without the identities.\<close>

fun oids :: "est \<Rightarrow> oid set"
  and oids_steps :: "(string \<times> est) list \<Rightarrow> oid set" where
  "oids (Leaf i c p) = {i}"
| "oids (Pipeline i steps) = insert i (oids_steps steps)"
| "oids (FeatureUnion i transformer_list) = insert i (oids_steps transformer_list)"
| "oids (CrossPolyPipeline i union_estimator) = insert i (oids union_estimator)"
| "oids (PlaytimePipeline i pipeline) = insert i (oids pipeline)"
| "oids_steps [] = {}"
| "oids_steps ((name, e) # rest) = oids e \<union> oids_steps rest"

datatype shape =
    SLeaf string "string list"
  | SPipeline "(string \<times> shape) list"
  | SFeatureUnion "(string \<times> shape) list"
  | SCrossPolyPipeline shape
  | SPlaytimePipeline shape

fun erase :: "est \<Rightarrow> shape"
  and erase_steps :: "(string \<times> est) list \<Rightarrow> (string \<times> shape) list" where
  "erase (Leaf i c p) = SLeaf c p"
| "erase (Pipeline i steps) = SPipeline (erase_steps steps)"
| "erase (FeatureUnion i transformer_list) = SFeatureUnion (erase_steps transformer_list)"
| "erase (CrossPolyPipeline i union_estimator) = SCrossPolyPipeline (erase union_estimator)"
| "erase (PlaytimePipeline i pipeline) = SPlaytimePipeline (erase pipeline)"
| "erase_steps [] = []"
| "erase_steps ((name, e) # rest) = (name, erase e) # erase_steps rest"

text \<open>The \<open>isinstance\<close> tests and attribute reads of the operators; reading an attribute an
  object does not have raises AttributeError.\<close>

definition isinstance_FeatureUnion :: "est \<Rightarrow> bool" where
  "isinstance_FeatureUnion e = (case e of FeatureUnion i ms \<Rightarrow> True | _ \<Rightarrow> False)"

definition isinstance_Pipeline :: "est \<Rightarrow> bool" where
  "isinstance_Pipeline e = (case e of Pipeline i steps \<Rightarrow> True | _ \<Rightarrow> False)"

definition isinstance_CrossPolyPipeline :: "est \<Rightarrow> bool" where
  "isinstance_CrossPolyPipeline e = (case e of CrossPolyPipeline i u \<Rightarrow> True | _ \<Rightarrow> False)"

definition attr_pipeline :: "est \<Rightarrow> error + est" where
  "attr_pipeline e = (case e of PlaytimePipeline i pipeline \<Rightarrow> Inr pipeline | _ \<Rightarrow> Inl AttributeError)"

fun attr_transformer_list :: "est \<Rightarrow> error + (string \<times> est) list" where
  "attr_transformer_list (FeatureUnion i transformer_list) = Inr transformer_list"
| "attr_transformer_list (CrossPolyPipeline i union_estimator) = attr_transformer_list union_estimator"
| "attr_transformer_list (Leaf i c p) = Inl AttributeError"
| "attr_transformer_list (Pipeline i steps) = Inl AttributeError"
| "attr_transformer_list (PlaytimePipeline i pipeline) = Inl AttributeError"

text \<open>
  \<open>CrossPolyPipeline.__init__\<close> reads \<open>union_estimator.transformer_list\<close>, which a plain
  list does not have. \<open>PlaytimePipeline.__init__\<close> stores the pipeline.
\<close>

definition CrossPolyPipeline_init :: "pyval \<Rightarrow> pystate \<Rightarrow> error + est \<times> pystate" where
  "CrossPolyPipeline_init union_estimator s =
     (case union_estimator of
        PyList l \<Rightarrow> Inl AttributeError
      | Obj u \<Rightarrow>
          (case attr_transformer_list u of
             Inl e \<Rightarrow> Inl e
           | Inr transformer_list \<Rightarrow> Inr (CrossPolyPipeline (next_oid s) u, bump s)))"

definition PlaytimePipeline_init :: "est \<Rightarrow> pystate \<Rightarrow> est \<times> pystate" where
  "PlaytimePipeline_init pipeline s = (PlaytimePipeline (next_oid s) pipeline, bump s)"

section \<open>The operators of PlaytimePipeline\<close>

text \<open>\<open>__add__\<close>: \<open>self + other\<close>.\<close>

definition PlaytimePipeline_add :: "est \<Rightarrow> est \<Rightarrow> pystate \<Rightarrow> error + est \<times> pystate" where
  "PlaytimePipeline_add self other s =
     (case attr_pipeline self of
        Inl e \<Rightarrow> Inl e
      | Inr self_pipeline \<Rightarrow>
          if isinstance_FeatureUnion self_pipeline
          then (case attr_transformer_list self_pipeline of
                  Inl e \<Rightarrow> Inl e
                | Inr members \<Rightarrow>
                    (let old_transformers = map snd members
                     in case attr_pipeline other of
                          Inl e \<Rightarrow> Inl e
                        | Inr other_pipeline \<Rightarrow>
                            (case clone other_pipeline s of
                               (c, s1) \<Rightarrow>
                                 (let new_transformers = old_transformers @ [c]
                                  in case make_union new_transformers s1 of
                                       (new_pipeline, s2) \<Rightarrow>
                                         Inr (PlaytimePipeline_init new_pipeline s2)))))
          else (case attr_pipeline other of
                  Inl e \<Rightarrow> Inl e
                | Inr other_pipeline \<Rightarrow>
                    (case make_union [self_pipeline, other_pipeline] s of
                       (new_pipeline, s1) \<Rightarrow> Inr (PlaytimePipeline_init new_pipeline s1))))"

text \<open>
  \<open>__mul__\<close>: \<open>self * other\<close>. The \<open>if\<close>/\<open>elif\<close> chain binds \<open>unioned_feats\<close>, to an
  estimator in the first branch and to a plain list in the other two; when no branch is
  taken the name is unbound at the \<open>return\<close>.
\<close>

definition mul_unioned_feats :: "est \<Rightarrow> est \<Rightarrow> pystate \<Rightarrow> error + pyval \<times> pystate" where
  "mul_unioned_feats self other s =
     (if \<not> isinstance_CrossPolyPipeline self \<and> \<not> isinstance_CrossPolyPipeline other
      then (case PlaytimePipeline_add self other s of
              Inl e \<Rightarrow> Inl e
            | Inr (added, s1) \<Rightarrow>
                (case attr_pipeline added of
                   Inl e \<Rightarrow> Inl e
                 | Inr p \<Rightarrow> Inr (Obj p, s1)))
      else (case attr_pipeline other of
              Inl e \<Rightarrow> Inl e
            | Inr other_pipeline \<Rightarrow>
                if isinstance_FeatureUnion other_pipeline
                then (case attr_pipeline self of
                        Inl e \<Rightarrow> Inl e
                      | Inr self_pipeline \<Rightarrow>
                          (case attr_transformer_list self_pipeline of
                             Inl e \<Rightarrow> Inl e
                           | Inr members \<Rightarrow>
                               (let old_transformers = map snd members
                                in case clone other_pipeline s of
                                     (c, s1) \<Rightarrow> Inr (PyList (old_transformers @ [c]), s1))))
                else (case attr_pipeline self of
                        Inl e \<Rightarrow> Inl e
                      | Inr self_pipeline \<Rightarrow>
                          if isinstance_Pipeline self_pipeline \<or> isinstance_FeatureUnion self_pipeline
                          then (case attr_transformer_list other_pipeline of
                                  Inl e \<Rightarrow> Inl e
                                | Inr members \<Rightarrow>
                                    (let old_transformers = map snd members
                                     in case clone self_pipeline s of
                                          (c, s1) \<Rightarrow> Inr (PyList (old_transformers @ [c]), s1)))
                          else Inl UnboundLocalError)))"

definition PlaytimePipeline_mul :: "est \<Rightarrow> est \<Rightarrow> pystate \<Rightarrow> error + est \<times> pystate" where
  "PlaytimePipeline_mul self other s =
     (case mul_unioned_feats self other s of
        Inl e \<Rightarrow> Inl e
      | Inr (unioned_feats, s1) \<Rightarrow>
          (case CrossPolyPipeline_init unioned_feats s1 of
             Inl e \<Rightarrow> Inl e
           | Inr (cross, s2) \<Rightarrow> Inr (PlaytimePipeline_init cross s2)))"

text \<open>\<open>__or__\<close>: \<open>self | other\<close>.\<close>

definition PlaytimePipeline_or :: "est \<Rightarrow> est \<Rightarrow> pystate \<Rightarrow> error + est \<times> pystate" where
  "PlaytimePipeline_or self other s =
     (case attr_pipeline self of
        Inl e \<Rightarrow> Inl e
      | Inr self_pipeline \<Rightarrow>
          (case clone self_pipeline s of
             (c, s1) \<Rightarrow>
               (case make_pipeline [c, other] s1 of
                  (chain, s2) \<Rightarrow> Inr (PlaytimePipeline_init chain s2))))"

text \<open>The constructors \<open>feats\<close> and \<open>onehot\<close>.\<close>

definition new_leaf :: "string \<Rightarrow> string list \<Rightarrow> pystate \<Rightarrow> est \<times> pystate" where
  "new_leaf c p s = (Leaf (next_oid s) c p, bump s)"

definition feats :: "string list \<Rightarrow> pystate \<Rightarrow> est \<times> pystate" where
  "feats colnames s =
     (case new_leaf ''SelectCols'' colnames s of
        (sel, s1) \<Rightarrow>
          (case make_pipeline [sel] s1 of (p, s2) \<Rightarrow> PlaytimePipeline_init p s2))"

definition onehot :: "string list \<Rightarrow> pystate \<Rightarrow> est \<times> pystate" where
  "onehot colnames s =
     (case new_leaf ''SelectCols'' colnames s of
        (sel, s1) \<Rightarrow>
          (case new_leaf ''OneHotEncoder'' [] s1 of
             (enc, s2) \<Rightarrow>
               (case make_pipeline [sel, enc] s2 of (p, s3) \<Rightarrow> PlaytimePipeline_init p s3)))"

section \<open>Properties stated about the program\<close>

text \<open>
  The blocks \<open>sl\<close> tile the half-open range from \<open>a\<close> to \<open>b\<close>: the first starts at
  \<open>a\<close>, each next one starts where the previous one ends, the last ends at \<open>b\<close>.
\<close>

fun tiles :: "slice list \<Rightarrow> nat \<Rightarrow> nat \<Rightarrow> bool" where
  "tiles [] a b = (a = b)"
| "tiles ((s, e) # r) a b = (s = a \<and> s \<le> e \<and> tiles r e b)"

definition slice_width :: "slice \<Rightarrow> nat" where
  "slice_width sl = snd sl - fst sl"

definition in_slice :: "nat \<Rightarrow> slice \<Rightarrow> bool" where
  "in_slice c sl = (fst sl \<le> c \<and> c < snd sl)"

text \<open>
  The width the specification gives for the output: the sum over all pairs \<open>i < j\<close> of
  \<open>w\<^sub>i * w\<^sub>j\<close>.
\<close>

definition pairwise_width_sum :: "nat list \<Rightarrow> nat" where
  "pairwise_width_sum ws = sum_list (map (\<lambda>(wi, wj). wi * wj) (combinations2 ws))"

text \<open>
  The columns the specification gives for one pair of blocks: for each column of the second
  block, the whole first block multiplied by it.
\<close>

definition pair_products :: "('a::times) list list \<Rightarrow> 'a list list \<Rightarrow> 'a list list" where
  "pair_products B1 B2 = concat (map (\<lambda>c2. map (\<lambda>c1. map2 (*) c1 c2) B1) B2)"

text \<open>Example inputs: union outputs and a fitted state with two blocks of widths 1 and 2.\<close>

definition U6 :: "int matrix" where
  "U6 = \<lparr>nrows = 1, mcols = [[1], [2], [3], [4], [5], [6]], fmt = Dense, dtype = Int64\<rparr>"

definition D3 :: "int matrix" where
  "D3 = \<lparr>nrows = 2, mcols = [[1, 2], [3, 4], [5, 6]], fmt = Dense, dtype = Float64\<rparr>"

definition S3 :: "int matrix" where
  "S3 = \<lparr>nrows = 2, mcols = [[1, 0], [0, 4], [5, 0]], fmt = CSR, dtype = Float64\<rparr>"

definition fs2 :: fitted_cross where
  "fs2 = \<lparr>split_marks = [(''a'', (0, 1)), (''b'', (1, 3))], shape_out = 3\<rparr>"


section \<open>Compositions and readings of the specification\<close>


definition fit_composed :: "error + est \<times> pystate \<Rightarrow> error + pystate" where
  "fit_composed r = (case r of Inl e \<Rightarrow> Inl e | Inr (node, s) \<Rightarrow> Inr (fit node s))"


text \<open>
  The specification's reading of the cross-product operator: the members are the
  transformers of both operands, a union on either side flattened into its members and any
  other operand a single member. \<open>result_members\<close> reads the members off what \<open>__mul__\<close>
  returned.
\<close>

definition flatten_operand :: "est \<Rightarrow> est list" where
  "flatten_operand x =
     (case x of
        PlaytimePipeline i p \<Rightarrow> (case p of FeatureUnion k ms \<Rightarrow> map snd ms | _ \<Rightarrow> [p])
      | _ \<Rightarrow> [x])"

definition spec_mul_members :: "est \<Rightarrow> est \<Rightarrow> shape list" where
  "spec_mul_members a b = map erase (flatten_operand a @ flatten_operand b)"

definition result_members :: "error + est \<times> pystate \<Rightarrow> shape list" where
  "result_members r =
     (case r of
        Inr (PlaytimePipeline w (CrossPolyPipeline c (FeatureUnion k ms)), s) \<Rightarrow>
          map (\<lambda>m. erase (snd m)) ms
      | _ \<Rightarrow> [])"

text \<open>
  Example objects: \<open>xa = onehot("weekday")\<close>, \<open>xb = feats("price")\<close>, \<open>xc = feats("qty")\<close>
  and an estimator \<open>xe\<close>, constructed in this order from the empty state; \<open>xu = xb + xc\<close>.
  \<open>example_width\<close> is a width for the example transformers: a pipeline that only selects
  columns yields one column per selected column, any other is given 7 columns.
\<close>

definition st :: "nat \<Rightarrow> pystate" where
  "st n = \<lparr>next_oid = n, fitted = {}\<rparr>"

definition pa :: est where
  "pa = Pipeline 2 [(''selectcols'', Leaf 0 ''SelectCols'' [''weekday'']),
                    (''onehotencoder'', Leaf 1 ''OneHotEncoder'' [])]"

definition pb :: est where
  "pb = Pipeline 5 [(''selectcols'', Leaf 4 ''SelectCols'' [''price''])]"

definition pc :: est where
  "pc = Pipeline 8 [(''selectcols'', Leaf 7 ''SelectCols'' [''qty''])]"

definition xa :: est where "xa = PlaytimePipeline 3 pa"

definition xb :: est where "xb = PlaytimePipeline 6 pb"

definition xc :: est where "xc = PlaytimePipeline 9 pc"

definition xe :: est where "xe = Leaf 10 ''Ridge'' []"

definition xu :: est where
  "xu = PlaytimePipeline 12 (FeatureUnion 11 [(''pipeline-1'', pb), (''pipeline-2'', pc)])"

definition example_width :: "shape \<Rightarrow> unit list \<Rightarrow> nat" where
  "example_width sh rows =
     (case sh of SPipeline [(n, SLeaf c cols)] \<Rightarrow> length cols | _ \<Rightarrow> 7)"

section \<open>The split marks recorded by fit\<close>

lemma dict_set_fresh: "k \<notin> set (map fst d) \<Longrightarrow> dict_set d k v = d @ [(k, v)]"
  by (induction d) auto

lemma tiles_append: "tiles (xs @ ys) a b = (\<exists>m. tiles xs a m \<and> tiles ys m b)"
  by (induction xs arbitrary: a) auto

lemma fit_loop_layout:
  assumes "distinct (map fst marks @ map fst tfs)"
    and "fit_loop tw X tfs marks start = (marks', tot)"
  shows "\<exists>new. marks' = marks @ new \<and> map fst new = map fst tfs
      \<and> tiles (map snd new) start tot
      \<and> map slice_width (map snd new) = map (\<lambda>(n, t). tw t (take 2 X)) tfs
      \<and> tot = start + sum_list (map (\<lambda>(n, t). tw t (take 2 X)) tfs)"
  using assms
proof (induction tfs arbitrary: marks start)
  case Nil
  then show ?case by simp
next
  case (Cons p tfs)
  obtain name tfm where p: "p = (name, tfm)" by (cases p)
  let ?w = "tw tfm (take 2 X)"
  from Cons.prems(1) p have fresh: "name \<notin> set (map fst marks)" by auto
  then have ds: "dict_set marks name (start, start + ?w) = marks @ [(name, (start, start + ?w))]"
    by (rule dict_set_fresh)
  from Cons.prems(2) p ds
  have run: "fit_loop tw X tfs (marks @ [(name, (start, start + ?w))]) (?w + start) = (marks', tot)"
    by (simp add: Let_def)
  from Cons.prems(1) p
  have dist: "distinct (map fst (marks @ [(name, (start, start + ?w))]) @ map fst tfs)"
    by auto
  from Cons.IH [OF dist run] obtain new where new:
    "marks' = (marks @ [(name, (start, start + ?w))]) @ new"
    "map fst new = map fst tfs"
    "tiles (map snd new) (?w + start) tot"
    "map slice_width (map snd new) = map (\<lambda>(n, t). tw t (take 2 X)) tfs"
    "tot = (?w + start) + sum_list (map (\<lambda>(n, t). tw t (take 2 X)) tfs)"
    by blast
  have w: "slice_width (start, start + ?w) = ?w" by (simp add: slice_width_def)
  have "marks' = marks @ ((name, (start, start + ?w)) # new)
      \<and> map fst ((name, (start, start + ?w)) # new) = map fst (p # tfs)
      \<and> tiles (map snd ((name, (start, start + ?w)) # new)) start tot
      \<and> map slice_width (map snd ((name, (start, start + ?w)) # new))
          = map (\<lambda>(n, t). tw t (take 2 X)) (p # tfs)
      \<and> tot = start + sum_list (map (\<lambda>(n, t). tw t (take 2 X)) (p # tfs))"
    using new p w by (simp add: add.commute)
  then show ?case by blast
qed

lemma tiles_bounds:
  "tiles sl a b \<Longrightarrow> a \<le> b \<and> (\<forall>i<length sl. a \<le> fst (sl ! i) \<and> snd (sl ! i) \<le> b)"
proof (induction sl arbitrary: a)
  case Nil
  then show ?case by simp
next
  case (Cons p sl)
  obtain s e where p: "p = (s, e)" by (cases p)
  with Cons.prems have h: "s = a" "s \<le> e" "tiles sl e b" by auto
  from Cons.IH [OF h(3)] have ih: "e \<le> b" "\<forall>i<length sl. e \<le> fst (sl ! i) \<and> snd (sl ! i) \<le> b"
    by auto
  show ?case
  proof (intro conjI allI impI)
    show "a \<le> b" using h ih by simp
  next
    fix i assume "i < length (p # sl)"
    then show "a \<le> fst ((p # sl) ! i)" using h ih p by (cases i) auto
  next
    fix i assume "i < length (p # sl)"
    then show "snd ((p # sl) ! i) \<le> b" using h ih p by (cases i) auto
  qed
qed

lemma tiles_cover:
  "tiles sl a b \<Longrightarrow> a \<le> c \<Longrightarrow> c < b \<Longrightarrow> \<exists>!i. i < length sl \<and> in_slice c (sl ! i)"
proof (induction sl arbitrary: a)
  case Nil
  then show ?case by simp
next
  case (Cons p sl)
  obtain s e where p: "p = (s, e)" by (cases p)
  with Cons.prems have h: "s = a" "s \<le> e" "tiles sl e b" by auto
  show ?case
  proof (cases "c < e")
    case True
    have later: "\<And>j. j < length sl \<Longrightarrow> \<not> in_slice c (sl ! j)"
      using tiles_bounds [OF h(3)] True by (auto simp: in_slice_def)
    show ?thesis
    proof (rule ex1I [of _ 0])
      show "0 < length (p # sl) \<and> in_slice c ((p # sl) ! 0)"
        using p h True Cons.prems by (simp add: in_slice_def)
    next
      fix i assume "i < length (p # sl) \<and> in_slice c ((p # sl) ! i)"
      then show "i = 0" using later by (cases i) auto
    qed
  next
    case False
    then have "e \<le> c" by simp
    from Cons.IH [OF h(3) this Cons.prems(3)]
    obtain i where i: "i < length sl" "in_slice c (sl ! i)"
      and uniq: "\<And>j. j < length sl \<Longrightarrow> in_slice c (sl ! j) \<Longrightarrow> j = i"
      by blast
    show ?thesis
    proof (rule ex1I [of _ "Suc i"])
      show "Suc i < length (p # sl) \<and> in_slice c ((p # sl) ! Suc i)" using i by simp
    next
      fix j assume j: "j < length (p # sl) \<and> in_slice c ((p # sl) ! j)"
      show "j = Suc i"
      proof (cases j)
        case 0
        with j p False show ?thesis by (simp add: in_slice_def)
      next
        case (Suc j')
        with j uniq [of j'] show ?thesis by simp
      qed
    qed
  qed
qed

text \<open>
  C3. After \<open>fit\<close> over transformers with distinct names whose width on the two-row
  probe equals their width on the full input, the split marks carry the names in fit
  order, the first block starts at 0 and every block starts where the previous one ends,
  the last one ending at the recorded total width; the width of each block is the width
  of its transformer, their sum is the total, and every column index below the total lies
  in exactly one block.
\<close>

theorem fit_split_marks_tile:
  assumes "distinct (map fst tfs)"
    and "\<forall>(name, tfm) \<in> set tfs. tw tfm (take 2 X) = tw tfm X"
  shows "dict_keys (split_marks (CrossPoly_fit tw X tfs)) = map fst tfs
    \<and> tiles (map snd (split_marks (CrossPoly_fit tw X tfs))) 0 (shape_out (CrossPoly_fit tw X tfs))
    \<and> map slice_width (map snd (split_marks (CrossPoly_fit tw X tfs))) = map (\<lambda>(name, tfm). tw tfm X) tfs
    \<and> shape_out (CrossPoly_fit tw X tfs) = sum_list (map (\<lambda>(name, tfm). tw tfm X) tfs)
    \<and> (\<forall>c < shape_out (CrossPoly_fit tw X tfs).
          \<exists>!i. i < length (split_marks (CrossPoly_fit tw X tfs))
             \<and> in_slice c (snd (split_marks (CrossPoly_fit tw X tfs) ! i)))"
proof -
  obtain marks tot where run: "fit_loop tw X tfs [] 0 = (marks, tot)"
    by (cases "fit_loop tw X tfs [] 0")
  have f: "CrossPoly_fit tw X tfs = \<lparr>split_marks = marks, shape_out = tot\<rparr>"
    by (simp add: CrossPoly_fit_def run)
  from assms(1) have "distinct (map fst ([] :: (string \<times> slice) list) @ map fst tfs)" by simp
  from fit_loop_layout [OF this run]
  have lay: "map fst marks = map fst tfs" "tiles (map snd marks) 0 tot"
    "map slice_width (map snd marks) = map (\<lambda>(n, t). tw t (take 2 X)) tfs"
    "tot = sum_list (map (\<lambda>(n, t). tw t (take 2 X)) tfs)"
    by auto
  have same: "map (\<lambda>(n, t). tw t (take 2 X)) tfs = map (\<lambda>(n, t). tw t X) tfs"
    using assms(2) by (auto intro!: map_cong)
  have cover: "\<forall>c<tot. \<exists>!i. i < length marks \<and> in_slice c (snd (marks ! i))"
  proof (intro allI impI)
    fix c assume "c < tot"
    from tiles_cover [OF lay(2) _ this]
    have "\<exists>!i. i < length (map snd marks) \<and> in_slice c (map snd marks ! i)" by simp
    then show "\<exists>!i. i < length marks \<and> in_slice c (snd (marks ! i))"
      by (metis (no_types, lifting) length_map nth_map)
  qed
  show ?thesis
    using lay same cover by (simp add: f dict_keys_def)
qed

theorem fit_split_marks_tile_witness:
  "dict_keys (split_marks (CrossPoly_fit (\<lambda>(w::nat) rows. w) [(), (), ()] [(''a'', 3), (''b'', 4)])) = [''a'', ''b'']
   \<and> split_marks (CrossPoly_fit (\<lambda>(w::nat) rows. w) [(), (), ()] [(''a'', 3), (''b'', 4)]) = [(''a'', (0, 3)), (''b'', (3, 7))]
   \<and> shape_out (CrossPoly_fit (\<lambda>(w::nat) rows. w) [(), (), ()] [(''a'', 3), (''b'', 4)]) = 7"
  using fit_split_marks_tile [of "[(''a'', 3), (''b'', 4)]" "\<lambda>(w::nat) rows. w" "[(), (), ()]"]
  by (simp add: CrossPoly_fit_def)

section \<open>The output of transform\<close>

lemma dict_get_key: "k \<in> set (map fst d) \<Longrightarrow> \<exists>v. dict_get d k = Inr v"
  by (induction d) force+

lemma dict_get_nth:
  "distinct (map fst d) \<Longrightarrow> i < length d \<Longrightarrow> dict_get d (fst (d ! i)) = Inr (snd (d ! i))"
proof (induction d arbitrary: i)
  case Nil
  then show ?case by simp
next
  case (Cons p d)
  obtain k v where p: "p = (k, v)" by (cases p)
  show ?case
  proof (cases i)
    case 0
    then show ?thesis using p by simp
  next
    case (Suc j)
    with Cons.prems have j: "j < length d" by simp
    then have "fst (d ! j) \<in> set (map fst d)" by (metis length_map nth_map nth_mem)
    with Cons.prems(1) p have "fst (d ! j) \<noteq> k" by auto
    then show ?thesis using Cons.IH [of j] Cons.prems(1) j p Suc by simp
  qed
qed

lemma combinations2_snoc2:
  "\<exists>ps. combinations2 (xs @ [a, b]) = ps @ [(a, b)]
      \<and> (\<forall>p \<in> set ps. fst p \<in> set (xs @ [a, b]) \<and> snd p \<in> set (xs @ [a, b]))"
proof (induction xs)
  case Nil
  show ?case by simp
next
  case (Cons x xs)
  then obtain ps where ps: "combinations2 (xs @ [a, b]) = ps @ [(a, b)]"
    "\<forall>p \<in> set ps. fst p \<in> set (xs @ [a, b]) \<and> snd p \<in> set (xs @ [a, b])"
    by blast
  have "combinations2 ((x # xs) @ [a, b]) = (map (Pair x) (xs @ [a, b]) @ ps) @ [(a, b)]"
    using ps(1) by simp
  moreover have "\<forall>p \<in> set (map (Pair x) (xs @ [a, b]) @ ps).
      fst p \<in> set ((x # xs) @ [a, b]) \<and> snd p \<in> set ((x # xs) @ [a, b])"
    using ps(2) by auto
  ultimately show ?case by blast
qed

lemma pair_loop_last:
  assumes "\<forall>p \<in> set ps. fst p \<in> set (map fst marks) \<and> snd p \<in> set (map fst marks)"
    and "dict_get marks n1 = Inr s1" and "dict_get marks n2 = Inr s2"
  shows "pair_loop marks U (ps @ [(n1, n2)]) bound = Inr (Some (slice_cols U s1, slice_cols U s2))"
  using assms(1)
proof (induction ps arbitrary: bound)
  case Nil
  show ?case using assms(2,3) by simp
next
  case (Cons p ps)
  obtain a b where p: "p = (a, b)" by (cases p)
  from Cons.prems p obtain va vb where "dict_get marks a = Inr va" "dict_get marks b = Inr vb"
    using dict_get_key [of a marks] dict_get_key [of b marks] by auto
  moreover from Cons.prems
  have "\<forall>p \<in> set ps. fst p \<in> set (map fst marks) \<and> snd p \<in> set (map fst marks)" by simp
  ultimately show ?case using Cons.IH p by simp
qed

lemma column_loop_in_range:
  "\<forall>x \<in> set xs. x < length (mcols X2) \<Longrightarrow>
   column_loop X1 X2 xs columns = Inr (columns @ map (\<lambda>x. mul_col X1 (mcols X2 ! x)) xs)"
  by (induction xs arbitrary: columns) (auto simp: col_at_def)

lemma column_loop_all:
  "column_loop X1 X2 [0..<ncols X2] [] = Inr (map (mul_col X1) (mcols X2))"
proof -
  have "column_loop X1 X2 [0..<ncols X2] [] =
      Inr ([] @ map (\<lambda>x. mul_col X1 (mcols X2 ! x)) [0..<ncols X2])"
    by (rule column_loop_in_range) (simp add: ncols_def)
  also have "map (\<lambda>x. mul_col X1 (mcols X2 ! x)) [0..<ncols X2] = map (mul_col X1) (map ((!) (mcols X2)) [0..<length (mcols X2)])"
    by (simp add: ncols_def)
  also have "map ((!) (mcols X2)) [0..<length (mcols X2)] = mcols X2" by (rule map_nth)
  finally show ?thesis by simp
qed

lemma hstack_mul_col:
  assumes "cs \<noteq> []"
  shows "hstack_as f (map (mul_col X1) cs) d =
     Inr \<lparr>nrows = nrows X1, mcols = pair_products (mcols X1) cs, fmt = f, dtype = d\<rparr>"
proof -
  obtain c cs' where cs: "cs = c # cs'" using assms by (cases cs) auto
  have rows: "\<And>c. nrows (mul_col X1 c) = nrows X1" by (simp add: mul_col_def)
  have cols: "\<And>c. mcols (mul_col X1 c) = map (\<lambda>c1. map2 (*) c1 c) (mcols X1)"
    by (simp add: mul_col_def)
  have "concat (map mcols (map (mul_col X1) cs)) = pair_products (mcols X1) cs"
    by (simp add: pair_products_def cols comp_def)
  then show ?thesis
    unfolding hstack_as_def cs by (simp add: rows list_all_iff)
qed

lemma last_two:
  assumes "2 \<le> length xs"
  shows "xs = take (length xs - 2) xs @ [xs ! (length xs - 2), xs ! (length xs - 1)]"
proof -
  from assms obtain ys b where 1: "xs = ys @ [b]" by (cases xs rule: rev_cases) auto
  with assms obtain zs a where 2: "ys = zs @ [a]" by (cases ys rule: rev_cases) auto
  show ?thesis unfolding 1 2 by (simp add: nth_append)
qed

lemma transform_marks:
  assumes dist: "distinct (map fst marks)"
    and len: "2 \<le> length marks"
    and fs: "split_marks fs = marks"
    and nonempty: "mcols (slice_cols U (snd (marks ! (length marks - 1)))) \<noteq> []"
  shows "CrossPoly_transform fs U =
     Inr \<lparr>nrows = nrows U,
          mcols = pair_products (mcols (slice_cols U (snd (marks ! (length marks - 2)))))
                                (mcols (slice_cols U (snd (marks ! (length marks - 1))))),
          fmt = (if issparse U then CSC else Dense),
          dtype = dtype U\<rparr>"
proof -
  let ?n = "length marks"
  let ?U = "if issparse U then csc_array U else U"
  let ?s1 = "snd (marks ! (?n - 2))" and ?s2 = "snd (marks ! (?n - 1))"
  let ?ks = "map fst marks"
  define ys where "ys = take (?n - 2) ?ks"
  define a where "a = fst (marks ! (?n - 2))"
  define b where "b = fst (marks ! (?n - 1))"
  have "?ks = take (length ?ks - 2) ?ks @ [?ks ! (length ?ks - 2), ?ks ! (length ?ks - 1)]"
    by (rule last_two) (simp add: len)
  moreover have "?ks ! (length ?ks - 2) = a" "?ks ! (length ?ks - 1) = b"
    using len by (simp_all add: nth_map a_def b_def)
  ultimately have split: "?ks = ys @ [a, b]"
    by (simp add: ys_def)
  obtain ps where ps0: "combinations2 (ys @ [a, b]) = ps @ [(a, b)]"
    "\<forall>p \<in> set ps. fst p \<in> set (ys @ [a, b]) \<and> snd p \<in> set (ys @ [a, b])"
    using combinations2_snoc2 [of ys a b] by blast
  have ps: "combinations2 ?ks = ps @ [(a, b)]"
    "\<forall>p \<in> set ps. fst p \<in> set ?ks \<and> snd p \<in> set ?ks"
    using ps0 unfolding split [symmetric] .
  have g1: "dict_get marks a = Inr ?s1"
    and g2: "dict_get marks b = Inr ?s2"
    unfolding a_def b_def using dict_get_nth [OF dist] len by simp_all
  have loop: "pair_loop marks ?U (combinations2 (dict_keys marks)) None
      = Inr (Some (slice_cols ?U ?s1, slice_cols ?U ?s2))"
    unfolding dict_keys_def ps(1) by (rule pair_loop_last [OF ps(2) g1 g2])
  have sl: "\<And>s. mcols (slice_cols ?U s) = mcols (slice_cols U s)"
     "\<And>s. nrows (slice_cols ?U s) = nrows U"
    by (simp_all add: slice_cols_def csc_array_def)
  have cl: "column_loop (slice_cols ?U ?s1) (slice_cols ?U ?s2) [0..<ncols (slice_cols ?U ?s2)] []
      = Inr (map (mul_col (slice_cols ?U ?s1)) (mcols (slice_cols U ?s2)))"
    using column_loop_all [of "slice_cols ?U ?s1" "slice_cols ?U ?s2"] sl(1) by simp
  have hs: "\<And>f. hstack_as f (map (mul_col (slice_cols ?U ?s1)) (mcols (slice_cols U ?s2))) (dtype ?U)
     = Inr \<lparr>nrows = nrows U, mcols = pair_products (mcols (slice_cols U ?s1)) (mcols (slice_cols U ?s2)),
          fmt = f, dtype = dtype U\<rparr>"
    using hstack_mul_col [OF nonempty, of _ "slice_cols ?U ?s1" "dtype ?U"] sl
    by (simp add: csc_array_def)
  have sp: "issparse ?U = issparse U" by (simp add: issparse_def csc_array_def)
  show ?thesis
  proof (cases "issparse U")
    case True
    then show ?thesis
      unfolding CrossPoly_transform_def Let_def fs loop
      using cl hs [of COO] sp by (simp add: sp_hstack_def tocsc_def)
  next
    case False
    then show ?thesis
      unfolding CrossPoly_transform_def Let_def fs loop
      using cl hs [of Dense] sp by (simp add: np_hstack_def)
  qed
qed

lemma pair_loop_rows:
  "pair_loop marks U ps bound = Inr (Some (X1, X2)) \<Longrightarrow>
   (\<forall>Y1 Y2. bound = Some (Y1, Y2) \<longrightarrow> nrows Y1 = nrows U) \<Longrightarrow> nrows X1 = nrows U"
proof (induction ps arbitrary: bound)
  case Nil
  then show ?case by simp
next
  case (Cons p ps)
  obtain a b where p: "p = (a, b)" by (cases p)
  from Cons.prems(1) p obtain s1 s2 where
    run: "pair_loop marks U ps (Some (slice_cols U s1, slice_cols U s2)) = Inr (Some (X1, X2))"
    by (auto split: sum.splits)
  show ?case
    by (rule Cons.IH [OF run]) (simp add: slice_cols_def)
qed

lemma column_loop_rows:
  "column_loop X1 X2 xs columns = Inr res \<Longrightarrow>
   (\<forall>c \<in> set columns. nrows c = nrows X1) \<Longrightarrow> (\<forall>c \<in> set res. nrows c = nrows X1)"
proof (induction xs arbitrary: columns)
  case Nil
  then show ?case by simp
next
  case (Cons x xs)
  from Cons.prems(1) obtain c where
    run: "column_loop X1 X2 xs (columns @ [mul_col X1 c]) = Inr res"
    by (auto split: sum.splits)
  show ?case
    by (rule Cons.IH [OF run]) (use Cons.prems(2) in \<open>auto simp: mul_col_def\<close>)
qed

lemma hstack_as_result:
  "hstack_as f blocks d = Inr M \<Longrightarrow>
   blocks \<noteq> [] \<and> fmt M = f \<and> dtype M = d \<and> nrows M = nrows (hd blocks)"
  by (auto simp: hstack_as_def split: list.splits if_splits)

lemma transform_result_shape:
  assumes "CrossPoly_transform fs U = Inr M"
  shows "nrows M = nrows U \<and> dtype M = dtype U \<and> fmt M = (if issparse U then CSC else Dense)"
proof -
  define V where "V = (if issparse U then csc_array U else U)"
  have V: "nrows V = nrows U" "dtype V = dtype U" "issparse V = issparse U"
    by (simp_all add: V_def csc_array_def issparse_def)
  define r where "r = pair_loop (split_marks fs) V (combinations2 (dict_keys (split_marks fs))) None"
  have unfold: "CrossPoly_transform fs U =
     (case r of
        Inl e \<Rightarrow> Inl e
      | Inr None \<Rightarrow> Inl UnboundLocalError
      | Inr (Some (X1, X2)) \<Rightarrow>
          (case column_loop X1 X2 [0..<ncols X2] [] of
             Inl e \<Rightarrow> Inl e
           | Inr columns \<Rightarrow>
               if issparse V
               then (case sp_hstack columns (dtype V) of Inl e \<Rightarrow> Inl e | Inr m \<Rightarrow> Inr (tocsc m))
               else np_hstack columns (dtype V)))"
    unfolding CrossPoly_transform_def Let_def V_def r_def ..
  from assms unfold obtain X1 X2 where r: "r = Inr (Some (X1, X2))"
    by (cases r; cases "projr r"; cases "the (projr r)") auto
  from assms unfold r obtain columns where cl: "column_loop X1 X2 [0..<ncols X2] [] = Inr columns"
    by (cases "column_loop X1 X2 [0..<ncols X2] []") auto
  from assms unfold r cl
  have fin: "(if issparse V
         then (case sp_hstack columns (dtype V) of Inl e \<Rightarrow> Inl e | Inr m \<Rightarrow> Inr (tocsc m))
         else np_hstack columns (dtype V)) = Inr M"
    by simp
  have r1: "nrows X1 = nrows V"
    by (rule pair_loop_rows [OF r [unfolded r_def]]) simp
  have rc: "\<forall>c \<in> set columns. nrows c = nrows X1" using column_loop_rows [OF cl] by simp
  show ?thesis
  proof (cases "issparse U")
    case True
    with fin V have "(case hstack_as COO columns (dtype U) of Inl e \<Rightarrow> Inl e | Inr m \<Rightarrow> Inr (tocsc m)) = Inr M"
      by (simp add: sp_hstack_def)
    then obtain m where m: "hstack_as COO columns (dtype U) = Inr m" "M = tocsc m"
      by (cases "hstack_as COO columns (dtype U)") auto
    from hstack_as_result [OF m(1)]
    have h: "columns \<noteq> []" "dtype m = dtype U" "nrows m = nrows (hd columns)" by simp_all
    from h(1) rc have "nrows (hd columns) = nrows X1" by (cases columns) simp_all
    with h r1 V True m(2) show ?thesis by (simp add: tocsc_def)
  next
    case False
    with fin V have m: "hstack_as Dense columns (dtype U) = Inr M"
      by (simp add: np_hstack_def)
    from hstack_as_result [OF m]
    have h: "columns \<noteq> []" "dtype M = dtype U" "nrows M = nrows (hd columns)" "fmt M = Dense"
      by simp_all
    from h(1) rc have "nrows (hd columns) = nrows X1" by (cases columns) simp_all
    with h r1 V False show ?thesis by simp
  qed
qed

lemma length_pair_products: "length (pair_products B1 B2) = length B1 * length B2"
  by (induction B2) (simp_all add: pair_products_def)

lemma fit_keys:
  assumes "distinct (map fst tfs)"
  shows "map fst (split_marks (CrossPoly_fit tw X tfs)) = map fst tfs"
proof -
  obtain marks tot where run: "fit_loop tw X tfs [] 0 = (marks, tot)"
    by (cases "fit_loop tw X tfs [] 0")
  from assms have "distinct (map fst ([] :: (string \<times> slice) list) @ map fst tfs)" by simp
  from fit_loop_layout [OF this run] show ?thesis
    by (auto simp: CrossPoly_fit_def run)
qed

text \<open>
  C2. With three or more named blocks (distinct names), \<open>transform\<close> returns exactly the
  column products of the last two blocks in fit order: for each column of the last block,
  the whole block before it multiplied by that column. No batch of an earlier pair is in
  the output, whose width is the product of the two block widths. (\<open>B2\<close> is the part of
  the last block present in the union output; when it has no column the list handed to
  \<open>hstack\<close> is empty and \<open>transform\<close> raises.)
\<close>

theorem transform_keeps_last_pair_only:
  assumes "distinct (map fst tfs)" and "3 \<le> length tfs"
    and "fs = CrossPoly_fit tw X tfs"
    and "B1 = mcols (slice_cols U (snd (split_marks fs ! (length tfs - 2))))"
    and "B2 = mcols (slice_cols U (snd (split_marks fs ! (length tfs - 1))))"
    and "B2 \<noteq> []"
  shows "dict_keys (split_marks fs) = map fst tfs
    \<and> CrossPoly_transform fs U =
        Inr \<lparr>nrows = nrows U, mcols = pair_products B1 B2,
             fmt = (if issparse U then CSC else Dense), dtype = dtype U\<rparr>
    \<and> length (pair_products B1 B2) = length B1 * length B2"
proof -
  have keys: "map fst (split_marks fs) = map fst tfs"
    unfolding assms(3) by (rule fit_keys [OF assms(1)])
  then have len: "length (split_marks fs) = length tfs" by (metis length_map)
  have "CrossPoly_transform fs U =
     Inr \<lparr>nrows = nrows U,
          mcols = pair_products
            (mcols (slice_cols U (snd (split_marks fs ! (length (split_marks fs) - 2)))))
            (mcols (slice_cols U (snd (split_marks fs ! (length (split_marks fs) - 1))))),
          fmt = (if issparse U then CSC else Dense), dtype = dtype U\<rparr>"
  proof (rule transform_marks)
    show "distinct (map fst (split_marks fs))" using keys assms(1) by simp
    show "2 \<le> length (split_marks fs)" using len assms(2) by simp
    show "split_marks fs = split_marks fs" ..
    show "mcols (slice_cols U (snd (split_marks fs ! (length (split_marks fs) - 1)))) \<noteq> []"
      using assms(5,6) len by simp
  qed
  then show ?thesis
    using keys len assms(4,5) by (simp add: dict_keys_def length_pair_products)
qed

theorem transform_keeps_last_pair_only_witness:
  "CrossPoly_transform (CrossPoly_fit (\<lambda>(w::nat) (rows::unit list). w) [(), ()]
       [(''a'', 1), (''b'', 2), (''c'', 3)]) U6
   = Inr \<lparr>nrows = 1, mcols = [[8], [12], [10], [15], [12], [18]], fmt = Dense, dtype = Int64\<rparr>"
  using transform_keeps_last_pair_only [of "[(''a'', 1), (''b'', 2), (''c'', 3)]"
      "CrossPoly_fit (\<lambda>(w::nat) (rows::unit list). w) [(), ()] [(''a'', 1), (''b'', 2), (''c'', 3)]"
      "\<lambda>(w::nat) (rows::unit list). w" "[(), ()]"
      "mcols (slice_cols U6 (1, 3))" U6 "mcols (slice_cols U6 (3, 6))"]
  by (simp add: CrossPoly_fit_def U6_def slice_cols_def issparse_def pair_products_def)

text \<open>
  C7. Whenever \<open>transform\<close> returns a matrix, it has the rows and the dtype of the union
  output and is a CSC sparse array when the union output is sparse, a dense array when it
  is dense. It does return one whenever there are at least two blocks and the last block
  has a column in the union output.
\<close>

theorem transform_keeps_representation:
  "(\<forall>M. CrossPoly_transform fs U = Inr M \<longrightarrow>
        nrows M = nrows U \<and> dtype M = dtype U \<and> fmt M = (if issparse U then CSC else Dense))
   \<and> (distinct (dict_keys (split_marks fs)) \<and> 2 \<le> length (split_marks fs)
        \<and> mcols (slice_cols U (snd (split_marks fs ! (length (split_marks fs) - 1)))) \<noteq> []
       \<longrightarrow> (\<exists>M. CrossPoly_transform fs U = Inr M))"
proof (rule conjI)
  show "\<forall>M. CrossPoly_transform fs U = Inr M \<longrightarrow>
        nrows M = nrows U \<and> dtype M = dtype U \<and> fmt M = (if issparse U then CSC else Dense)"
    using transform_result_shape [of fs U] by blast
next
  show "distinct (dict_keys (split_marks fs)) \<and> 2 \<le> length (split_marks fs)
        \<and> mcols (slice_cols U (snd (split_marks fs ! (length (split_marks fs) - 1)))) \<noteq> []
       \<longrightarrow> (\<exists>M. CrossPoly_transform fs U = Inr M)"
  proof
  assume h: "distinct (dict_keys (split_marks fs)) \<and> 2 \<le> length (split_marks fs)
        \<and> mcols (slice_cols U (snd (split_marks fs ! (length (split_marks fs) - 1)))) \<noteq> []"
  have "CrossPoly_transform fs U =
     Inr \<lparr>nrows = nrows U,
          mcols = pair_products
            (mcols (slice_cols U (snd (split_marks fs ! (length (split_marks fs) - 2)))))
            (mcols (slice_cols U (snd (split_marks fs ! (length (split_marks fs) - 1))))),
          fmt = (if issparse U then CSC else Dense), dtype = dtype U\<rparr>"
    by (rule transform_marks) (use h in \<open>simp_all add: dict_keys_def\<close>)
  then show "\<exists>M. CrossPoly_transform fs U = Inr M" by blast
  qed
qed

theorem transform_keeps_representation_witness:
  "(\<exists>M. CrossPoly_transform fs2 S3 = Inr M \<and> nrows M = 2 \<and> dtype M = Float64 \<and> fmt M = CSC)
   \<and> (\<exists>M. CrossPoly_transform fs2 D3 = Inr M \<and> nrows M = 2 \<and> dtype M = Float64 \<and> fmt M = Dense)"
  using transform_keeps_representation [of fs2 S3] transform_keeps_representation [of fs2 D3]
  by (simp add: fs2_def S3_def D3_def dict_keys_def slice_cols_def issparse_def) blast

text \<open>
  The width of the output. On a union output that has all the fitted columns, \<open>transform\<close>
  returns as many columns as the product of the widths of the last two blocks; for two
  blocks that is the sum over all pairs.
\<close>

lemma fit_layout:
  assumes "distinct (map fst tfs)"
  shows "map fst (split_marks (CrossPoly_fit tw X tfs)) = map fst tfs"
    and "tiles (map snd (split_marks (CrossPoly_fit tw X tfs))) 0 (shape_out (CrossPoly_fit tw X tfs))"
    and "map slice_width (map snd (split_marks (CrossPoly_fit tw X tfs)))
          = map (\<lambda>(n, t). tw t (take 2 X)) tfs"
proof -
  obtain marks tot where run: "fit_loop tw X tfs [] 0 = (marks, tot)"
    by (cases "fit_loop tw X tfs [] 0")
  from assms have "distinct (map fst ([] :: (string \<times> slice) list) @ map fst tfs)" by simp
  from fit_loop_layout [OF this run]
  show "map fst (split_marks (CrossPoly_fit tw X tfs)) = map fst tfs"
    and "tiles (map snd (split_marks (CrossPoly_fit tw X tfs))) 0 (shape_out (CrossPoly_fit tw X tfs))"
    and "map slice_width (map snd (split_marks (CrossPoly_fit tw X tfs)))
          = map (\<lambda>(n, t). tw t (take 2 X)) tfs"
    by (auto simp: CrossPoly_fit_def run)
qed

lemma block_width:
  assumes "distinct (map fst tfs)" and "i < length tfs"
    and "shape_out (CrossPoly_fit tw X tfs) \<le> ncols U"
  shows "length (mcols (slice_cols U (snd (split_marks (CrossPoly_fit tw X tfs) ! i))))
      = tw (snd (tfs ! i)) (take 2 X)"
proof -
  let ?fs = "CrossPoly_fit tw X tfs"
  let ?sl = "map snd (split_marks ?fs)"
  have len: "length (split_marks ?fs) = length tfs"
    using fit_layout(1) [OF assms(1), of tw X] by (metis length_map)
  have i: "i < length ?sl" using len assms(2) by simp
  from tiles_bounds [OF fit_layout(2) [OF assms(1), of tw X]] i
  have b: "snd (?sl ! i) \<le> shape_out ?fs" by blast
  have "slice_width (?sl ! i) = map slice_width ?sl ! i" using i by simp
  also have "\<dots> = map (\<lambda>(n, t). tw t (take 2 X)) tfs ! i"
    unfolding fit_layout(3) [OF assms(1)] ..
  also have "\<dots> = tw (snd (tfs ! i)) (take 2 X)"
    using assms(2) by (simp add: case_prod_beta)
  finally have w: "slice_width (?sl ! i) = tw (snd (tfs ! i)) (take 2 X)" .
  have s: "?sl ! i = snd (split_marks ?fs ! i)" using i by simp
  have "snd (snd (split_marks ?fs ! i)) \<le> length (mcols U)"
    using b assms(3) s by (simp add: ncols_def)
  then have "length (mcols (slice_cols U (snd (split_marks ?fs ! i))))
      = slice_width (snd (split_marks ?fs ! i))"
    by (simp add: slice_cols_def slice_width_def)
  then show ?thesis using w s by simp
qed

lemma transform_width_last_pair:
  assumes "distinct (map fst tfs)" and "2 \<le> length tfs"
    and "shape_out (CrossPoly_fit tw X tfs) \<le> ncols U"
    and "0 < tw (snd (tfs ! (length tfs - 1))) (take 2 X)"
  shows "\<exists>M. CrossPoly_transform (CrossPoly_fit tw X tfs) U = Inr M
      \<and> ncols M = tw (snd (tfs ! (length tfs - 2))) (take 2 X)
                 * tw (snd (tfs ! (length tfs - 1))) (take 2 X)"
proof -
  let ?fs = "CrossPoly_fit tw X tfs"
  have keys: "map fst (split_marks ?fs) = map fst tfs" by (rule fit_layout(1) [OF assms(1)])
  then have len: "length (split_marks ?fs) = length tfs" by (metis length_map)
  have w1: "length (mcols (slice_cols U (snd (split_marks ?fs ! (length tfs - 2)))))
      = tw (snd (tfs ! (length tfs - 2))) (take 2 X)"
    by (rule block_width [OF assms(1) _ assms(3)]) (use assms(2) in simp)
  have w2: "length (mcols (slice_cols U (snd (split_marks ?fs ! (length tfs - 1)))))
      = tw (snd (tfs ! (length tfs - 1))) (take 2 X)"
    by (rule block_width [OF assms(1) _ assms(3)]) (use assms(2) in simp)
  have "CrossPoly_transform ?fs U =
     Inr \<lparr>nrows = nrows U,
          mcols = pair_products
            (mcols (slice_cols U (snd (split_marks ?fs ! (length (split_marks ?fs) - 2)))))
            (mcols (slice_cols U (snd (split_marks ?fs ! (length (split_marks ?fs) - 1))))),
          fmt = (if issparse U then CSC else Dense), dtype = dtype U\<rparr>"
  proof (rule transform_marks)
    show "distinct (map fst (split_marks ?fs))" using keys assms(1) by simp
    show "2 \<le> length (split_marks ?fs)" using len assms(2) by simp
    show "split_marks ?fs = split_marks ?fs" ..
    show "mcols (slice_cols U (snd (split_marks ?fs ! (length (split_marks ?fs) - 1)))) \<noteq> []"
      using w2 assms(4) len by auto
  qed
  then show ?thesis
    using w1 w2 len by (simp add: ncols_def length_pair_products)
qed

lemma pairwise_width_sum_two: "pairwise_width_sum [w1, w2] = w1 * w2"
  by (simp add: pairwise_width_sum_def)

text \<open>
  C1 on three blocks of widths 1, 2 and 3: the sum of the pairwise products of the widths
  is 11, and \<open>transform\<close> returns the 6 columns of the last pair only.
\<close>

theorem transform_three_blocks_width:
  "pairwise_width_sum [1, 2, 3] = 11
   \<and> split_marks (CrossPoly_fit (\<lambda>(w::nat) (rows::unit list). w) [(), ()]
        [(''a'', 1), (''b'', 2), (''c'', 3)]) = [(''a'', (0, 1)), (''b'', (1, 3)), (''c'', (3, 6))]
   \<and> CrossPoly_transform (CrossPoly_fit (\<lambda>(w::nat) (rows::unit list). w) [(), ()]
        [(''a'', 1), (''b'', 2), (''c'', 3)]) U6
      = Inr \<lparr>nrows = 1, mcols = [[8], [12], [10], [15], [12], [18]], fmt = Dense, dtype = Int64\<rparr>"
  by (simp add: pairwise_width_sum_def CrossPoly_fit_def CrossPoly_transform_def U6_def
      dict_keys_def issparse_def slice_cols_def ncols_def upt_rec col_at_def mul_col_def
      np_hstack_def hstack_as_def)

section \<open>Cloning, naming and fitting\<close>

lemma length_unique_names: "length (unique_names names) = length names"
  by (simp add: unique_names_def)

lemma name_estimators_snd: "map snd (name_estimators es) = es"
  by (simp add: name_estimators_def length_unique_names)

lemma name_estimators_fst:
  "map fst (name_estimators es) = unique_names (map (\<lambda>e. lower (class_name e)) es)"
  by (simp add: name_estimators_def length_unique_names)

lemma length_name_estimators: "length (name_estimators es) = length es"
  by (simp add: name_estimators_def length_unique_names)

lemma oids_steps_Union: "oids_steps steps = (\<Union>e \<in> set (map snd steps). oids e)"
  by (induction steps) auto

lemma erase_steps_map: "erase_steps steps = map (\<lambda>(n, e). (n, erase e)) steps"
  by (induction steps) auto

lemma erase_steps_snd: "map snd (erase_steps steps) = map erase (map snd steps)"
  by (induction steps) auto

lemma erase_steps_fst: "map fst (erase_steps steps) = map fst steps"
  by (induction steps) auto

lemma clone_props:
  "next_oid s \<le> next_oid (snd (clone e s))
   \<and> fitted (snd (clone e s)) = fitted s
   \<and> oids (fst (clone e s)) \<subseteq> {next_oid s ..< next_oid (snd (clone e s))}
   \<and> erase (fst (clone e s)) = erase e
   \<and> class_name (fst (clone e s)) = class_name e"
  and clone_steps_props:
  "next_oid s \<le> next_oid (snd (clone_steps steps s))
   \<and> fitted (snd (clone_steps steps s)) = fitted s
   \<and> oids_steps (fst (clone_steps steps s)) \<subseteq> {next_oid s ..< next_oid (snd (clone_steps steps s))}
   \<and> erase_steps (fst (clone_steps steps s)) = erase_steps steps"
proof (induction e s and steps s rule: clone_clone_steps.induct)
  case (1 i c p s)
  show ?case by (simp add: bump_def)
next
  case (2 i steps s)
  then show ?case by (cases "clone_steps steps s") (auto simp: bump_def)
next
  case (3 i transformer_list s)
  then show ?case by (cases "clone_steps transformer_list s") (auto simp: bump_def)
next
  case (4 i union_estimator s)
  then show ?case by (cases "clone union_estimator s") (auto simp: bump_def)
next
  case (5 i pipeline s)
  then show ?case by (cases "clone pipeline s") (auto simp: bump_def)
next
  case (6 s)
  show ?case by simp
next
  case (7 name e rest s)
  obtain e' s1 where c: "clone e s = (e', s1)" by (cases "clone e s")
  obtain rest' s2 where r: "clone_steps rest s1 = (rest', s2)" by (cases "clone_steps rest s1")
  from 7(1) c have 1: "next_oid s \<le> next_oid s1" "fitted s1 = fitted s"
    "oids e' \<subseteq> {next_oid s ..< next_oid s1}" "erase e' = erase e" by simp_all
  from 7(2) [OF c [symmetric]] r have 2: "next_oid s1 \<le> next_oid s2" "fitted s2 = fitted s1"
    "oids_steps rest' \<subseteq> {next_oid s1 ..< next_oid s2}" "erase_steps rest' = erase_steps rest"
    by simp_all
  have "oids e' \<union> oids_steps rest' \<subseteq> {next_oid s ..< next_oid s2}"
    using 1 2 by (auto simp: subset_eq)
  then show ?case using 1 2 by (simp add: c r)
qed

lemma fit_props:
  "fitted (fit e s) = fitted s \<union> oids e \<and> next_oid (fit e s) = next_oid s"
  and fit_steps_props:
  "fitted (fit_steps steps s) = fitted s \<union> oids_steps steps
   \<and> next_oid (fit_steps steps s) = next_oid s"
  by (induction e s and steps s rule: fit_fit_steps.induct) (auto simp: mark_def)

lemma add_union:
  "PlaytimePipeline_add (PlaytimePipeline i (FeatureUnion k ms)) (PlaytimePipeline j q) s =
     Inr (PlaytimePipeline (Suc (next_oid (snd (clone q s))))
            (FeatureUnion (next_oid (snd (clone q s)))
               (name_estimators (map snd ms @ [fst (clone q s)]))),
          bump (bump (snd (clone q s))))"
  by (cases "clone q s")
     (simp add: PlaytimePipeline_add_def attr_pipeline_def isinstance_FeatureUnion_def
        make_union_def PlaytimePipeline_init_def bump_def)

lemma add_other:
  "\<not> isinstance_FeatureUnion p \<Longrightarrow>
   PlaytimePipeline_add (PlaytimePipeline i p) (PlaytimePipeline j q) s =
     Inr (PlaytimePipeline (Suc (next_oid s))
            (FeatureUnion (next_oid s) (name_estimators [p, q])),
          bump (bump s))"
  by (simp add: PlaytimePipeline_add_def attr_pipeline_def make_union_def
      PlaytimePipeline_init_def bump_def)

lemma add_result:
  "\<exists>w k ms s1. PlaytimePipeline_add (PlaytimePipeline i p) (PlaytimePipeline j q) s
       = Inr (PlaytimePipeline w (FeatureUnion k ms), s1)
     \<and> fitted s1 = fitted s \<and> next_oid s \<le> k \<and> k < w \<and> w < next_oid s1
     \<and> map (\<lambda>m. erase (snd m)) ms =
         (case p of FeatureUnion k0 ms0 \<Rightarrow> map (\<lambda>m. erase (snd m)) ms0 @ [erase q]
                  | _ \<Rightarrow> [erase p, erase q])"
proof (cases "isinstance_FeatureUnion p")
  case True
  then obtain k0 ms0 where p: "p = FeatureUnion k0 ms0"
    by (cases p) (simp_all add: isinstance_FeatureUnion_def)
  have sn: "map snd (name_estimators (map snd ms0 @ [fst (clone q s)])) = map snd ms0 @ [fst (clone q s)]"
    by (rule name_estimators_snd)
  have "map (\<lambda>m. erase (snd m)) (name_estimators (map snd ms0 @ [fst (clone q s)]))
      = map erase (map snd (name_estimators (map snd ms0 @ [fst (clone q s)])))"
    by simp
  also have "\<dots> = map (\<lambda>m. erase (snd m)) ms0 @ [erase q]"
    unfolding sn using clone_props [of s q] by simp
  finally show ?thesis
    using clone_props [of s q] unfolding p add_union
    by (simp add: bump_def)
next
  case False
  have sn: "map snd (name_estimators [p, q]) = [p, q]" by (rule name_estimators_snd)
  have "map (\<lambda>m. erase (snd m)) (name_estimators [p, q]) = map erase (map snd (name_estimators [p, q]))"
    by simp
  also have "\<dots> = [erase p, erase q]" unfolding sn by simp
  finally show ?thesis
    using False unfolding add_other [OF False]
    by (cases p) (simp_all add: bump_def isinstance_FeatureUnion_def)
qed

lemma fitted_fit: "fitted (fit e s) = fitted s \<union> oids e"
  using fit_props [of e s] by blast

lemma fitted_fit_steps: "fitted (fit_steps steps s) = fitted s \<union> oids_steps steps"
  using fit_steps_props [of steps s] by blast

lemma or_result:
  "PlaytimePipeline_or (PlaytimePipeline i p) other s =
     Inr (PlaytimePipeline (Suc (next_oid (snd (clone p s))))
            (Pipeline (next_oid (snd (clone p s))) (name_estimators [fst (clone p s), other])),
          bump (bump (snd (clone p s))))"
  by (cases "clone p s")
     (simp add: PlaytimePipeline_or_def attr_pipeline_def make_pipeline_def
        PlaytimePipeline_init_def bump_def)

lemma name_estimators_two: "\<exists>n1 n2. name_estimators [a, b] = [(n1, a), (n2, b)]"
  by (simp add: name_estimators_def unique_names_def upt_rec)






lemma or_fit:
  "\<exists>c s1 w k n1 n2 s2.
      clone p s = (c, s1)
    \<and> PlaytimePipeline_or (PlaytimePipeline i p) other s
        = Inr (PlaytimePipeline w (Pipeline k [(n1, c), (n2, other)]), s2)
    \<and> erase c = erase p
    \<and> next_oid s \<le> k \<and> oids c \<subseteq> {next_oid s ..< k} \<and> k < w \<and> w < next_oid s2
    \<and> fitted s2 = fitted s
    \<and> fitted (fit (PlaytimePipeline w (Pipeline k [(n1, c), (n2, other)])) s2)
        = fitted s \<union> {w, k} \<union> oids c \<union> oids other"
proof -
  obtain c s1 where c: "clone p s = (c, s1)" by (cases "clone p s")
  obtain n1 n2 where n: "name_estimators [c, other] = [(n1, c), (n2, other)]"
    using name_estimators_two by blast
  have r: "PlaytimePipeline_or (PlaytimePipeline i p) other s =
     Inr (PlaytimePipeline (Suc (next_oid s1)) (Pipeline (next_oid s1) [(n1, c), (n2, other)]),
          bump (bump s1))"
    using or_result [of i p other s] by (simp add: c n)
  have cp: "erase c = erase p" "oids c \<subseteq> {next_oid s ..< next_oid s1}" "fitted s1 = fitted s"
    "next_oid s \<le> next_oid s1"
    using clone_props [of s p] by (simp_all add: c)
  have f: "fitted (fit (PlaytimePipeline (Suc (next_oid s1)) (Pipeline (next_oid s1) [(n1, c), (n2, other)]))
              (bump (bump s1)))
      = fitted s \<union> {Suc (next_oid s1), next_oid s1} \<union> oids c \<union> oids other"
    using cp(3) by (auto simp: fitted_fit bump_def mark_def)
  show ?thesis
    using c r cp f by (simp add: bump_def)
qed

lemma mul_result:
  assumes "PlaytimePipeline_add (PlaytimePipeline i p) (PlaytimePipeline j q) s
        = Inr (PlaytimePipeline w (FeatureUnion k ms), s1)"
  shows "mul_unioned_feats (PlaytimePipeline i p) (PlaytimePipeline j q) s
        = Inr (Obj (FeatureUnion k ms), s1)"
    and "PlaytimePipeline_mul (PlaytimePipeline i p) (PlaytimePipeline j q) s
        = Inr (PlaytimePipeline (Suc (next_oid s1)) (CrossPolyPipeline (next_oid s1) (FeatureUnion k ms)),
               bump (bump s1))"
proof -
  show u: "mul_unioned_feats (PlaytimePipeline i p) (PlaytimePipeline j q) s
        = Inr (Obj (FeatureUnion k ms), s1)"
    by (simp add: mul_unioned_feats_def isinstance_CrossPolyPipeline_def assms attr_pipeline_def)
  show "PlaytimePipeline_mul (PlaytimePipeline i p) (PlaytimePipeline j q) s
        = Inr (PlaytimePipeline (Suc (next_oid s1)) (CrossPolyPipeline (next_oid s1) (FeatureUnion k ms)),
               bump (bump s1))"
    by (simp add: PlaytimePipeline_mul_def u CrossPolyPipeline_init_def PlaytimePipeline_init_def
        bump_def)
qed

lemma add_names:
  assumes "PlaytimePipeline_add (PlaytimePipeline i p) (PlaytimePipeline j q) s
        = Inr (PlaytimePipeline w (FeatureUnion k ms), s1)"
  shows "map fst ms = unique_names (map (\<lambda>e. lower (class_name e)) (map snd ms))"
proof (cases "isinstance_FeatureUnion p")
  case True
  then obtain k0 ms0 where p: "p = FeatureUnion k0 ms0"
    by (cases p) (simp_all add: isinstance_FeatureUnion_def)
  from assms have "ms = name_estimators (map snd ms0 @ [fst (clone q s)])"
    unfolding p add_union by simp
  then show ?thesis
    by (metis name_estimators_fst name_estimators_snd)
next
  case False
  from assms have "ms = name_estimators [p, q]"
    unfolding add_other [OF False] by simp
  then show ?thesis
    by (metis name_estimators_fst name_estimators_snd)
qed

lemma fit_loop_cong:
  "map fst ms = map fst ms' \<Longrightarrow> map (\<lambda>m. erase (snd m)) ms = map (\<lambda>m. erase (snd m)) ms' \<Longrightarrow>
   fit_loop (\<lambda>t. tw (erase t)) X ms marks start = fit_loop (\<lambda>t. tw (erase t)) X ms' marks start"
proof (induction ms arbitrary: ms' marks start)
  case Nil
  then show ?case by simp
next
  case (Cons m ms)
  from Cons.prems(1) obtain m' ms1 where ms': "ms' = m' # ms1" by (cases ms') auto
  obtain n t where m: "m = (n, t)" by (cases m)
  obtain n' t' where m': "m' = (n', t')" by (cases m')
  from Cons.prems ms' m m' have eq: "n = n'" "erase t = erase t'"
    "map fst ms = map fst ms1" "map (\<lambda>m. erase (snd m)) ms = map (\<lambda>m. erase (snd m)) ms1"
    by simp_all
  show ?case
    unfolding ms' m m' using Cons.IH [OF eq(3,4)] eq(1,2) by (simp add: Let_def)
qed



section \<open>The example objects\<close>

lemma example_objects:
  "onehot [''weekday''] (st 0) = (xa, st 4) \<and> feats [''price''] (st 4) = (xb, st 7)
   \<and> feats [''qty''] (st 7) = (xc, st 10) \<and> new_leaf ''Ridge'' [] (st 10) = (xe, st 11)
   \<and> PlaytimePipeline_add xb xc (st 11) = Inr (xu, st 13)"
  by code_simp

section \<open>The union operator\<close>

text \<open>
  C5 at \<open>xa + xb\<close>, two pipelines that are not unions: the new union has the pipeline
  objects of \<open>xa\<close> and \<open>xb\<close> themselves as members (objects 2 and 5, which existed before
  the call), not clones, and fitting the new union fits them and their steps.
\<close>

theorem add_places_operands_uncloned:
  "PlaytimePipeline_add xa xb (st 11) =
     Inr (PlaytimePipeline 12 (FeatureUnion 11 [(''pipeline-1'', pa), (''pipeline-2'', pb)]), st 13)
   \<and> attr_pipeline xa = Inr pa \<and> attr_pipeline xb = Inr pb
   \<and> fit_composed (PlaytimePipeline_add xa xb (st 11))
       = Inr \<lparr>next_oid = 13, fitted = {0, 1, 2, 4, 5, 11, 12}\<rparr>"
  by code_simp

section \<open>The sequential operator\<close>

text \<open>
  C8. \<open>a | b\<close> returns a new node wrapping a new two-step \<open>Pipeline\<close>: the first step is a
  clone \<open>c\<close> of the pipeline of \<open>a\<close> (same structure, all its objects new), the second step
  is \<open>other\<close> itself. Building it changes no fitted state, and fitting the new node fits
  the two new nodes, the objects of the clone and the objects of \<open>other\<close>.
\<close>

theorem or_clones_left_keeps_right:
  "\<exists>c s1 w k n1 n2 s2.
      clone p s = (c, s1)
    \<and> PlaytimePipeline_or (PlaytimePipeline i p) other s
        = Inr (PlaytimePipeline w (Pipeline k [(n1, c), (n2, other)]), s2)
    \<and> erase c = erase p
    \<and> next_oid s \<le> k \<and> oids c \<subseteq> {next_oid s ..< k} \<and> k < w \<and> w < next_oid s2
    \<and> fitted s2 = fitted s
    \<and> fitted (fit (PlaytimePipeline w (Pipeline k [(n1, c), (n2, other)])) s2)
        = fitted s \<union> {w, k} \<union> oids c \<union> oids other"
  by (rule or_fit)

theorem or_clones_left_keeps_right_witness:
  "\<exists>c s1 w k n1 n2 s2.
      clone pa (st 11) = (c, s1)
    \<and> PlaytimePipeline_or xa xb (st 11)
        = Inr (PlaytimePipeline w (Pipeline k [(n1, c), (n2, xb)]), s2)
    \<and> erase c = erase pa
    \<and> oids c \<subseteq> {11 ..< k}
    \<and> fitted (fit (PlaytimePipeline w (Pipeline k [(n1, c), (n2, xb)])) s2)
        = {w, k} \<union> oids c \<union> oids xb"
  using or_clones_left_keeps_right [of pa "st 11" 3 xb]
  by (simp add: xa_def st_def) blast

section \<open>Operands and fitted state\<close>




section \<open>The cross-product operator\<close>

text \<open>
  C10. For two wrapper values the first branch of \<open>__mul__\<close> is taken: \<open>unioned_feats\<close> is
  the union pipeline of \<open>a + b\<close>, and \<open>a * b\<close> is a new wrapper around a
  \<open>CrossPolyPipeline\<close> around that union. \<open>unioned_feats\<close> is never a plain list (on which
  the constructor of \<open>CrossPolyPipeline\<close> raises AttributeError) and never unbound.
\<close>

theorem mul_first_case_always:
  "\<exists>w k ms s1 c v s2.
      PlaytimePipeline_add (PlaytimePipeline i p) (PlaytimePipeline j q) s
        = Inr (PlaytimePipeline w (FeatureUnion k ms), s1)
    \<and> mul_unioned_feats (PlaytimePipeline i p) (PlaytimePipeline j q) s
        = Inr (Obj (FeatureUnion k ms), s1)
    \<and> PlaytimePipeline_mul (PlaytimePipeline i p) (PlaytimePipeline j q) s
        = Inr (PlaytimePipeline v (CrossPolyPipeline c (FeatureUnion k ms)), s2)
    \<and> (\<forall>l s'. mul_unioned_feats (PlaytimePipeline i p) (PlaytimePipeline j q) s \<noteq> Inr (PyList l, s')
              \<and> CrossPolyPipeline_init (PyList l) s' = Inl AttributeError)
    \<and> mul_unioned_feats (PlaytimePipeline i p) (PlaytimePipeline j q) s \<noteq> Inl UnboundLocalError"
proof -
  from add_result [of i p j q s] obtain w k ms s1 where
    a: "PlaytimePipeline_add (PlaytimePipeline i p) (PlaytimePipeline j q) s
        = Inr (PlaytimePipeline w (FeatureUnion k ms), s1)"
    by blast
  have l: "\<forall>l s'. CrossPolyPipeline_init (PyList l) s' = Inl AttributeError"
    by (simp add: CrossPolyPipeline_init_def)
  show ?thesis using a mul_result [OF a] l by simp
qed

theorem mul_first_case_always_witness:
  "\<exists>w k ms s1 c v s2.
      PlaytimePipeline_add xa xb (st 11) = Inr (PlaytimePipeline w (FeatureUnion k ms), s1)
    \<and> mul_unioned_feats xa xb (st 11) = Inr (Obj (FeatureUnion k ms), s1)
    \<and> PlaytimePipeline_mul xa xb (st 11)
        = Inr (PlaytimePipeline v (CrossPolyPipeline c (FeatureUnion k ms)), s2)"
  using mul_first_case_always [of 3 pa 6 pb "st 11"]
  unfolding xa_def xb_def by blast

text \<open>
  C4 as the specification states it fails at \<open>xa * xu\<close>, where the pipeline of \<open>xu\<close> is a
  union of two: the cross-product node has two members, the second being the whole union
  of \<open>xu\<close>, where flattening both sides gives three.
\<close>

theorem mul_right_union_not_flattened:
  "length (result_members (PlaytimePipeline_mul xa xu (st 13))) = 2
   \<and> length (spec_mul_members xa xu) = 3
   \<and> result_members (PlaytimePipeline_mul xa xu (st 13)) \<noteq> spec_mul_members xa xu"
  by code_simp

text \<open>
  C4, amended. For two wrapper values neither of which wraps a cross-product node, \<open>a * b\<close>
  returns a new wrapper around a new \<open>CrossPolyPipeline\<close> around the new union that
  \<open>a + b\<close> builds (all three are new objects), and building it changes no fitted state.
  When the pipeline of \<open>a\<close> is a union, the members are its members, the same objects in
  their order, followed by one member for \<open>b\<close>, a clone of the pipeline of \<open>b\<close> (new
  objects, same structure), also when that pipeline is a union. Otherwise there are two
  members, with the structure of the pipeline of \<open>a\<close> and of the pipeline of \<open>b\<close>. The
  members are named by \<open>unique_names\<close> and consist of objects of the two pipelines or of
  new objects.
\<close>

theorem mul_wraps_union_of_add:
  assumes "\<not> isinstance_CrossPolyPipeline p" and "\<not> isinstance_CrossPolyPipeline q"
  shows "\<exists>w k ms s1 c v s2.
      PlaytimePipeline_add (PlaytimePipeline i p) (PlaytimePipeline j q) s
        = Inr (PlaytimePipeline w (FeatureUnion k ms), s1)
    \<and> PlaytimePipeline_mul (PlaytimePipeline i p) (PlaytimePipeline j q) s
        = Inr (PlaytimePipeline v (CrossPolyPipeline c (FeatureUnion k ms)), s2)
    \<and> next_oid s \<le> k \<and> k < c \<and> c < v \<and> v < next_oid s2
    \<and> fitted s2 = fitted s
    \<and> map fst ms = unique_names (map (\<lambda>e. lower (class_name e)) (map snd ms))
    \<and> oids_steps ms \<subseteq> oids p \<union> oids q \<union> {next_oid s ..< k}
    \<and> (case p of
          FeatureUnion k0 ms0 \<Rightarrow>
            map snd ms = map snd ms0 @ [fst (clone q s)]
            \<and> erase (fst (clone q s)) = erase q
            \<and> oids (fst (clone q s)) \<subseteq> {next_oid s ..< k}
        | _ \<Rightarrow> map (\<lambda>m. erase (snd m)) ms = [erase p, erase q])"
proof -
  from add_result [of i p j q s] obtain w k ms s1 where
    a: "PlaytimePipeline_add (PlaytimePipeline i p) (PlaytimePipeline j q) s
        = Inr (PlaytimePipeline w (FeatureUnion k ms), s1)"
    and f: "fitted s1 = fitted s" and b: "next_oid s \<le> k" "k < w" "w < next_oid s1"
    and m: "map (\<lambda>m. erase (snd m)) ms =
         (case p of FeatureUnion k0 ms0 \<Rightarrow> map (\<lambda>m. erase (snd m)) ms0 @ [erase q]
                  | _ \<Rightarrow> [erase p, erase q])"
    by blast
  have mu: "PlaytimePipeline_mul (PlaytimePipeline i p) (PlaytimePipeline j q) s
        = Inr (PlaytimePipeline (Suc (next_oid s1)) (CrossPolyPipeline (next_oid s1) (FeatureUnion k ms)),
               bump (bump s1))"
    by (rule mul_result(2) [OF a])
  have nm: "map fst ms = unique_names (map (\<lambda>e. lower (class_name e)) (map snd ms))"
    by (rule add_names [OF a])
  have members: "oids_steps ms \<subseteq> oids p \<union> oids q \<union> {next_oid s ..< k}
    \<and> (case p of
          FeatureUnion k0 ms0 \<Rightarrow>
            map snd ms = map snd ms0 @ [fst (clone q s)]
            \<and> erase (fst (clone q s)) = erase q
            \<and> oids (fst (clone q s)) \<subseteq> {next_oid s ..< k}
        | _ \<Rightarrow> map (\<lambda>m. erase (snd m)) ms = [erase p, erase q])"
  proof (cases "isinstance_FeatureUnion p")
    case True
    then obtain k0 ms0 where p: "p = FeatureUnion k0 ms0"
      by (cases p) (simp_all add: isinstance_FeatureUnion_def)
    from a have k: "k = next_oid (snd (clone q s))"
      and ms: "ms = name_estimators (map snd ms0 @ [fst (clone q s)])"
      unfolding p add_union by simp_all
    have sn: "map snd ms = map snd ms0 @ [fst (clone q s)]"
      unfolding ms by (rule name_estimators_snd)
    have cp: "erase (fst (clone q s)) = erase q" "oids (fst (clone q s)) \<subseteq> {next_oid s ..< k}"
      using clone_props [of s q] unfolding k by simp_all
    have "oids_steps ms = (\<Union>e \<in> set (map snd ms). oids e)" by (rule oids_steps_Union)
    also have "\<dots> = (\<Union>e \<in> set (map snd ms0). oids e) \<union> oids (fst (clone q s))"
      unfolding sn by auto
    also have "(\<Union>e \<in> set (map snd ms0). oids e) = oids_steps ms0"
      by (rule oids_steps_Union [symmetric])
    finally have "oids_steps ms = oids_steps ms0 \<union> oids (fst (clone q s))" .
    then have "oids_steps ms \<subseteq> oids p \<union> oids q \<union> {next_oid s ..< k}"
      using cp(2) unfolding p by auto
    then show ?thesis using sn cp unfolding p by simp
  next
    case False
    from a have ms: "ms = name_estimators [p, q]"
      unfolding add_other [OF False] by simp
    have sn: "map snd ms = [p, q]" unfolding ms by (rule name_estimators_snd)
    have "oids_steps ms = (\<Union>e \<in> set (map snd ms). oids e)" by (rule oids_steps_Union)
    also have "\<dots> = oids p \<union> oids q" unfolding sn by auto
    finally have "oids_steps ms \<subseteq> oids p \<union> oids q \<union> {next_oid s ..< k}" by blast
    moreover have "map (\<lambda>m. erase (snd m)) ms = [erase p, erase q]"
      using m False by (cases p) (simp_all add: isinstance_FeatureUnion_def)
    ultimately show ?thesis
      using False by (cases p) (simp_all add: isinstance_FeatureUnion_def)
  qed
  show ?thesis
    using a mu f b nm members
    by (intro exI [of _ w] exI [of _ k] exI [of _ ms] exI [of _ s1] exI [of _ "next_oid s1"]
        exI [of _ "Suc (next_oid s1)"] exI [of _ "bump (bump s1)"]) (simp add: bump_def)
qed

theorem mul_wraps_union_of_add_witness:
  "\<exists>w k ms s1 c v s2.
      PlaytimePipeline_add xu xa (st 13) = Inr (PlaytimePipeline w (FeatureUnion k ms), s1)
    \<and> PlaytimePipeline_mul xu xa (st 13)
        = Inr (PlaytimePipeline v (CrossPolyPipeline c (FeatureUnion k ms)), s2)
    \<and> 13 \<le> k \<and> k < c \<and> c < v
    \<and> map snd ms = [pb, pc, fst (clone pa (st 13))]
    \<and> erase (fst (clone pa (st 13))) = erase pa"
proof -
  have h1: "\<not> isinstance_CrossPolyPipeline (FeatureUnion 11 [(''pipeline-1'', pb), (''pipeline-2'', pc)])"
    by (simp add: isinstance_CrossPolyPipeline_def)
  have h2: "\<not> isinstance_CrossPolyPipeline pa"
    by (simp add: isinstance_CrossPolyPipeline_def pa_def)
  have n: "next_oid (st 13) = 13" by (simp add: st_def)
  from mul_wraps_union_of_add [OF h1 h2, of 12 3 "st 13"] obtain w k ms s1 c v s2 where
    1: "PlaytimePipeline_add
          (PlaytimePipeline 12 (FeatureUnion 11 [(''pipeline-1'', pb), (''pipeline-2'', pc)]))
          (PlaytimePipeline 3 pa) (st 13) = Inr (PlaytimePipeline w (FeatureUnion k ms), s1)"
    and 2: "PlaytimePipeline_mul
          (PlaytimePipeline 12 (FeatureUnion 11 [(''pipeline-1'', pb), (''pipeline-2'', pc)]))
          (PlaytimePipeline 3 pa) (st 13)
        = Inr (PlaytimePipeline v (CrossPolyPipeline c (FeatureUnion k ms)), s2)"
    and 3: "next_oid (st 13) \<le> k" "k < c" "c < v"
    and 4: "case FeatureUnion 11 [(''pipeline-1'', pb), (''pipeline-2'', pc)] of
          FeatureUnion k0 ms0 \<Rightarrow>
            map snd ms = map snd ms0 @ [fst (clone pa (st 13))]
            \<and> erase (fst (clone pa (st 13))) = erase pa
            \<and> oids (fst (clone pa (st 13))) \<subseteq> {next_oid (st 13) ..< k}
        | _ \<Rightarrow> map (\<lambda>m. erase (snd m)) ms
            = [erase (FeatureUnion 11 [(''pipeline-1'', pb), (''pipeline-2'', pc)]), erase pa]"
    by blast
  from 4 have 5: "map snd ms = [pb, pc, fst (clone pa (st 13))]"
    "erase (fst (clone pa (st 13))) = erase pa"
    by simp_all
  show ?thesis
    unfolding xu_def xa_def using 1 2 3 5 n
    by (intro exI [of _ w] exI [of _ k] exI [of _ ms] exI [of _ s1] exI [of _ c] exI [of _ v]
        exI [of _ s2]) simp
qed

section \<open>Unions built by repeated addition\<close>

text \<open>
  C9. For \<open>a\<close>, \<open>b\<close>, \<open>c\<close> where the pipeline of \<open>a\<close> is not already a union, \<open>(a + b) + c\<close>
  is a union whose members have the names, the order and the structure of the members of
  \<open>make_union\<close> applied to the three pipelines; so the widths of the members are the same
  and \<open>CrossPolyPipeline.fit\<close> records the same split marks and total width over both.
\<close>

theorem add_twice_same_layout:
  assumes "\<not> isinstance_FeatureUnion p"
  shows "\<exists>ab s1 w k ms s2.
      PlaytimePipeline_add (PlaytimePipeline i p) (PlaytimePipeline j q) s = Inr (ab, s1)
    \<and> PlaytimePipeline_add ab (PlaytimePipeline l r) s1
        = Inr (PlaytimePipeline w (FeatureUnion k ms), s2)
    \<and> (\<forall>s'. \<exists>k' ms' s''.
          make_union [p, q, r] s' = (FeatureUnion k' ms', s'')
        \<and> map fst ms = map fst ms'
        \<and> map (\<lambda>m. erase (snd m)) ms = map (\<lambda>m. erase (snd m)) ms'
        \<and> (\<forall>rows. map (\<lambda>m. tw (erase (snd m)) rows) ms = map (\<lambda>m. tw (erase (snd m)) rows) ms')
        \<and> CrossPoly_fit (\<lambda>t. tw (erase t)) X ms = CrossPoly_fit (\<lambda>t. tw (erase t)) X ms')"
proof -
  let ?ab = "PlaytimePipeline (Suc (next_oid s)) (FeatureUnion (next_oid s) (name_estimators [p, q]))"
  let ?s1 = "bump (bump s)"
  let ?c = "fst (clone r ?s1)"
  let ?ms = "name_estimators [p, q, ?c]"
  let ?ms' = "name_estimators [p, q, r]"
  have a1: "PlaytimePipeline_add (PlaytimePipeline i p) (PlaytimePipeline j q) s = Inr (?ab, ?s1)"
    by (rule add_other [OF assms])
  have sn: "map snd (name_estimators [p, q]) @ [?c] = [p, q, ?c]"
    by (simp add: name_estimators_snd)
  have a2: "PlaytimePipeline_add ?ab (PlaytimePipeline l r) ?s1
      = Inr (PlaytimePipeline (Suc (next_oid (snd (clone r ?s1))))
               (FeatureUnion (next_oid (snd (clone r ?s1))) ?ms),
             bump (bump (snd (clone r ?s1))))"
    unfolding add_union sn ..
  have c: "erase ?c = erase r" "class_name ?c = class_name r"
    using clone_props [of ?s1 r] by simp_all
  have names: "map fst ?ms = map fst ?ms'"
    by (simp add: name_estimators_fst c)
  have shapes: "map (\<lambda>m. erase (snd m)) ?ms = map (\<lambda>m. erase (snd m)) ?ms'"
  proof -
    have "map (\<lambda>m. erase (snd m)) ?ms = map erase (map snd ?ms)" by simp
    also have "\<dots> = map erase (map snd ?ms')" unfolding name_estimators_snd by (simp add: c)
    finally show ?thesis by simp
  qed
  have widths: "\<forall>rows. map (\<lambda>m. tw (erase (snd m)) rows) ?ms = map (\<lambda>m. tw (erase (snd m)) rows) ?ms'"
  proof
    fix rows
    have "map (\<lambda>m. tw (erase (snd m)) rows) ?ms = map (\<lambda>sh. tw sh rows) (map (\<lambda>m. erase (snd m)) ?ms)"
      by simp
    also have "\<dots> = map (\<lambda>sh. tw sh rows) (map (\<lambda>m. erase (snd m)) ?ms')"
      unfolding shapes ..
    finally show "map (\<lambda>m. tw (erase (snd m)) rows) ?ms = map (\<lambda>m. tw (erase (snd m)) rows) ?ms'"
      by simp
  qed
  have fits: "CrossPoly_fit (\<lambda>t. tw (erase t)) X ?ms = CrossPoly_fit (\<lambda>t. tw (erase t)) X ?ms'"
    unfolding CrossPoly_fit_def
    by (simp only: fit_loop_cong [OF names shapes, of tw X "[]" 0])
  have direct: "\<forall>s'. \<exists>k' ms' s''.
          make_union [p, q, r] s' = (FeatureUnion k' ms', s'')
        \<and> map fst ?ms = map fst ms'
        \<and> map (\<lambda>m. erase (snd m)) ?ms = map (\<lambda>m. erase (snd m)) ms'
        \<and> (\<forall>rows. map (\<lambda>m. tw (erase (snd m)) rows) ?ms = map (\<lambda>m. tw (erase (snd m)) rows) ms')
        \<and> CrossPoly_fit (\<lambda>t. tw (erase t)) X ?ms = CrossPoly_fit (\<lambda>t. tw (erase t)) X ms'"
    using names shapes widths fits by (simp add: make_union_def)
  show ?thesis
    using a1 a2 direct by blast
qed

theorem add_twice_same_layout_witness:
  "\<not> isinstance_FeatureUnion pa
   \<and> (\<exists>ab s1 w k ms s2.
        PlaytimePipeline_add xa xb (st 11) = Inr (ab, s1)
      \<and> PlaytimePipeline_add ab xc s1 = Inr (PlaytimePipeline w (FeatureUnion k ms), s2)
      \<and> (\<exists>k' ms' s''.
            make_union [pa, pb, pc] (st 11) = (FeatureUnion k' ms', s'')
          \<and> map fst ms = map fst ms'
          \<and> CrossPoly_fit (\<lambda>t. example_width (erase t)) [(), ()] ms
              = CrossPoly_fit (\<lambda>t. example_width (erase t)) [(), ()] ms'))"
proof -
  have h: "\<not> isinstance_FeatureUnion pa" by (simp add: pa_def isinstance_FeatureUnion_def)
  from add_twice_same_layout [OF h, of 3 6 pb "st 11" 9 pc example_width "[(), ()]"]
  show ?thesis unfolding xa_def xb_def xc_def using h by blast
qed

end
